theory Spec2Isabelle
  imports Main
begin

section \<open>The built-in edit tool of the chat workbench (tools.ts)\<close>

text \<open>
  \<^verbatim>\<open>tools.ts\<close> holds a workbench contribution that registers one language-model tool,
  \<^verbatim>\<open>vscode_editFile\<close>, and the tool itself, \<^verbatim>\<open>EditTool\<close>, whose \<^verbatim>\<open>invoke\<close> method
  is a sequence of calls on six injected services. The services are not part of the file,
  so an invocation is modelled against a record of what each service answers, and it
  yields the list of calls it made, in order, together with how the promise settled.

  The types that the file only imports (URI, cancellation token, text edit, chat request)
  are type variables: \<open>'u\<close>, \<open>'t\<close>, \<open>'e\<close> and \<open>'r\<close>.
\<close>

subsection \<open>Parameters and invocation\<close>

record EditToolParams =
  filePath :: string
  explanation :: string
  code :: string

record IToolInvocationContext =
  sessionId :: string

text \<open>
  \<^verbatim>\<open>invocation.context\<close> may be undefined; \<^verbatim>\<open>invocation.parameters\<close> is cast to
  \<^verbatim>\<open>EditToolParams\<close> without a check, so it is taken at that type.
\<close>

record IToolInvocation =
  parameters :: EditToolParams
  invocation_context :: "IToolInvocationContext option"

record IToolResultTextPart =
  part_kind :: string
  part_value :: string

record IToolResult =
  content :: "IToolResultTextPart list"

subsection \<open>Chat model, progress events, code mapper, editing session\<close>

datatype MarkdownString = MarkdownString string

text \<open>
  The three kinds of progress that the tool appends. The \<^verbatim>\<open>done\<close> field of a text edit
  is optional: \<open>None\<close> when the object literal has no such field.
\<close>

datatype ('u, 'e) IChatProgress =
    markdownContent MarkdownString
  | codeblockUri 'u
  | textEdit 'u "'e list" "bool option"

record 'r ChatModel =
  model_sessionId :: string
  getRequests :: "'r list"

record 'u ICodeBlock =
  block_code :: string
  resource :: 'u
  markdownBeforeBlock :: string

record 'u ICodeMapperRequest =
  codeBlocks :: "'u ICodeBlock list"

record ICodeMapperResult =
  errorMessage :: "string option"

record 'u IModifiedFileEntry =
  modifiedURI :: 'u
  isCurrentlyBeingModified :: bool

record 'u IChatEditingSession =
  chatSessionId :: string
  entries :: "'u IModifiedFileEntry list"

subsection \<open>The injected services\<close>

text \<open>
  What the collaborators answer during one invocation. Every call is taken to return
  (a collaborator that rejects is outside this file).
  \<^item> \<open>mapCode\<close> answers with the \<^verbatim>\<open>textEdit\<close> callbacks it makes on the sink it was handed,
    in order and before its promise resolves, and with its result, which may be undefined.
  \<^item> \<open>currentEditingSession\<close> is the getter read once, before the mapper is called.
  \<^item> \<open>currentEditingSessionObs\<close> is the observable as the autorun sees it: the value at
    its first run, then the value at each later run; after the last one nothing changes
    any more. A value carries the entries and their \<^verbatim>\<open>isCurrentlyBeingModified\<close> flags as
    read in that run.
  \<^item> \<open>runsBeforeContinuation\<close>: the autorun is never disposed, and the code after the
    \<^verbatim>\<open>await\<close> resumes in a later microtask than the run that calls \<^verbatim>\<open>resolve\<close>. This is the
    number of further runs of the autorun that the scheduler lets happen in between; the
    runs on the remaining values happen after the save has been called.
\<close>

record ('u, 't, 'e, 'r) services =
  URI_file :: "string \<Rightarrow> 'u"
  uri_toString :: "'u \<Rightarrow> string"
  isInsideWorkspace :: "'u \<Rightarrow> bool"
  fileIsIgnored :: "'u \<Rightarrow> 't \<Rightarrow> bool"
  getSession :: "string \<Rightarrow> 'r ChatModel option"
  currentEditingSession :: "'u IChatEditingSession option"
  mapCode :: "'u ICodeMapperRequest \<Rightarrow> 't \<Rightarrow> ('u \<times> 'e list) list \<times> ICodeMapperResult option"
  currentEditingSessionObs :: "'u IChatEditingSession option \<times> 'u IChatEditingSession option list"
  runsBeforeContinuation :: nat

text \<open>The calls an invocation makes, as they appear in its trace.\<close>

datatype ('u, 't, 'e, 'r) call =
    IsInsideWorkspace 'u
  | FileIsIgnored 'u 't
  | GetSession string
  | AcceptResponseProgress "'r option" "('u, 'e) IChatProgress"
  | CurrentEditingSession
  | MapCode "'u ICodeMapperRequest" 't
  | AutorunRun "'u IChatEditingSession option"
  | Save 'u

text \<open>
  How the promise returned by \<^verbatim>\<open>invoke\<close> settles. \<open>TypeError\<close> is what JavaScript
  raises when a property of \<^verbatim>\<open>undefined\<close> is read; \<open>Pending\<close> is a promise that never
  settles.
\<close>

datatype error = Error string | TypeError

datatype 'a outcome = Returned 'a | Threw error | Pending

subsection \<open>EditTool.invoke\<close>

text \<open>\<^verbatim>\<open>getRequests().at(-1)\<close>: the last element, undefined on an empty array.\<close>

definition at_last :: "'a list \<Rightarrow> 'a option" where
  "at_last xs = (if xs = [] then None else Some (last xs))"

text \<open>Truthiness of \<^verbatim>\<open>result?.errorMessage\<close>: a string that is present and not empty.\<close>

definition truthy_errorMessage :: "ICodeMapperResult option \<Rightarrow> string option" where
  "truthy_errorMessage result =
     (case result of
        None \<Rightarrow> None
      | Some r \<Rightarrow> (case errorMessage r of
                    None \<Rightarrow> None
                  | Some msg \<Rightarrow> if msg = [] then None else Some msg))"

text \<open>The sink handed to the mapper: each \<^verbatim>\<open>textEdit(target, edits)\<close> becomes a progress event.\<close>

definition editSink :: "'r option \<Rightarrow> 'u \<times> 'e list \<Rightarrow> ('u, 't, 'e, 'r) call" where
  "editSink request cb = AcceptResponseProgress request (textEdit (fst cb) (snd cb) None)"

text \<open>
  The body of the autorun (lines 152 to 157): whether this run calls \<^verbatim>\<open>resolve\<close>.
  \<^verbatim>\<open>entries?.find\<close> takes the first entry whose URI prints like the target's.
\<close>

definition autorun_resolves ::
  "('u, 't, 'e, 'r) services \<Rightarrow> 'u \<Rightarrow> 'u IChatEditingSession option \<Rightarrow> bool" where
  "autorun_resolves svc uri currentSession =
     (case currentSession of
        None \<Rightarrow> False
      | Some session \<Rightarrow>
          (case find (\<lambda>e. uri_toString svc (modifiedURI e) = uri_toString svc uri) (entries session) of
             None \<Rightarrow> False
           | Some currentFile \<Rightarrow> \<not> isCurrentlyBeingModified currentFile))"

text \<open>
  Modelled from the spec: \<^verbatim>\<open>autorun\<close> (base/common/observable.js) and the observables it
  reads are not in the file; the specification has the invocation await a condition that
  is signalled through an external observable mechanism. The autorun runs its body on
  the current value of the observable and again on each later value; the awaited promise
  resolves at the first run that calls \<^verbatim>\<open>resolve\<close>, and never if no run does. The result is
  the runs made until the promise resolves and, if it resolves, the values that the
  observable still takes afterwards: the autorun is not disposed and will run on them too.
\<close>

fun await_autorun ::
  "('u, 't, 'e, 'r) services \<Rightarrow> 'u \<Rightarrow> 'u IChatEditingSession option list
     \<Rightarrow> ('u, 't, 'e, 'r) call list \<times> 'u IChatEditingSession option list option" where
  "await_autorun svc uri [] = ([], None)"
| "await_autorun svc uri (s # later) =
     (if autorun_resolves svc uri s then ([AutorunRun s], Some later)
      else (AutorunRun s # fst (await_autorun svc uri later), snd (await_autorun svc uri later)))"

text \<open>A newline, four backquotes and a newline: the fence around the code in the transcript.\<close>

definition fence :: string where
  "fence = ''\<newline>````\<newline>''"

text \<open>
  \<^verbatim>\<open>invoke\<close>, lines 101 to 166, in the order of the source: the context check (102), the
  workspace check (108), the ignore check (112), the session and its last request (116,
  117), the three opening progress events (119 to 130), the editing session check (132),
  the mapper call with its sink (136 to 142), the closing progress event (144), the
  mapper's error (146), the awaited autorun (150 to 159), the save (161) and the result
  (163). The calls made so far stay made when an error is thrown. Between the run of the
  autorun that resolves the promise and the save, and after the save, the autorun runs on
  the values that the observable still takes.
\<close>

definition invoke ::
  "('u, 't, 'e, 'r) services \<Rightarrow> IToolInvocation \<Rightarrow> 't
     \<Rightarrow> ('u, 't, 'e, 'r) call list \<times> IToolResult outcome" where
  "invoke svc invocation token =
     (case invocation_context invocation of
        None \<Rightarrow> ([], Threw (Error ''toolInvocationToken is required for this tool''))
      | Some ctx \<Rightarrow>
         (let params = parameters invocation;
              uri = URI_file svc (filePath params);
              t1 = [IsInsideWorkspace uri]
          in if \<not> isInsideWorkspace svc uri
             then (t1, Threw (Error (''File '' @ filePath params
                     @ '' can't be edited because it's not inside the current workspace'')))
             else
          let t2 = t1 @ [FileIsIgnored uri token]
          in if fileIsIgnored svc uri token
             then (t2, Threw (Error (''File '' @ filePath params
                     @ '' can't be edited because it is configured to be ignored by Copilot'')))
             else
          let t3 = t2 @ [GetSession (sessionId ctx)]
          in (case getSession svc (sessionId ctx) of
               None \<Rightarrow> (t3, Threw TypeError)
             | Some model \<Rightarrow>
         (let request = at_last (getRequests model);
              t4 = t3 @ [AcceptResponseProgress request (markdownContent (MarkdownString fence)),
                         AcceptResponseProgress request (codeblockUri uri),
                         AcceptResponseProgress request
                           (markdownContent (MarkdownString (code params @ fence))),
                         CurrentEditingSession]
          in if map_option chatSessionId (currentEditingSession svc) \<noteq> Some (model_sessionId model)
             then (t4, Threw (Error ''This tool must be called from within an editing session''))
             else
          let mapperRequest = \<lparr>codeBlocks = [\<lparr>block_code = code params, resource = uri,
                                  markdownBeforeBlock = explanation params\<rparr>]\<rparr>;
              mapped = mapCode svc mapperRequest token;
              t5 = t4 @ [MapCode mapperRequest token] @ map (editSink request) (fst mapped)
                      @ [AcceptResponseProgress request (textEdit uri [] (Some True))]
          in (case truthy_errorMessage (snd mapped) of
               Some msg \<Rightarrow> (t5, Threw (Error msg))
             | None \<Rightarrow>
         (let awaited = await_autorun svc uri
                          (fst (currentEditingSessionObs svc) # snd (currentEditingSessionObs svc))
          in (case snd awaited of
                None \<Rightarrow> (t5 @ fst awaited, Pending)
              | Some later \<Rightarrow>
                  (t5 @ fst awaited
                      @ map AutorunRun (take (runsBeforeContinuation svc) later)
                      @ [Save uri]
                      @ map AutorunRun (drop (runsBeforeContinuation svc) later),
                   Returned \<lparr>content = [\<lparr>part_kind = ''text'',
                                          part_value = ''The file was edited successfully''\<rparr>]\<rparr>))))))))"

subsection \<open>Tool metadata and registration\<close>

definition codeInstructions :: string where
  "codeInstructions =
     ''\<newline>The user is very smart and can understand how to apply your edits to their files, you just need to provide minimal hints.\<newline>''
   @ ''Avoid repeating existing code, instead use comments to represent regions of unchanged code. The user prefers that you are as concise as possible. For example:\<newline>''
   @ ''// ...existing code...\<newline>''
   @ ''{ changed code }\<newline>''
   @ ''// ...existing code...\<newline>''
   @ ''{ changed code }\<newline>''
   @ ''// ...existing code...\<newline>''
   @ ''\<newline>''
   @ ''Here is an example of how you should use format an edit to an existing Person class:\<newline>''
   @ ''class Person {\<newline>''
   @ [CHR 0x09] @ ''// ...existing code...\<newline>''
   @ [CHR 0x09] @ ''age: number;\<newline>''
   @ [CHR 0x09] @ ''// ...existing code...\<newline>''
   @ [CHR 0x09] @ ''getAge() {\<newline>''
   @ [CHR 0x09, CHR 0x09] @ ''return this.age;\<newline>''
   @ [CHR 0x09] @ ''}\<newline>''
   @ ''}\<newline>''"

record IJSONSchemaProperty =
  property_type :: string
  description :: string

text \<open>The properties of the schema object, in the order of the object literal.\<close>

record IJSONSchema =
  schema_type :: string
  properties :: "(string \<times> IJSONSchemaProperty) list"
  required :: "string list"

record IToolData =
  tool_id :: string
  tags :: "string list"
  displayName :: string
  modelDescription :: string
  inputSchema :: IJSONSchema

text \<open>\<^verbatim>\<open>localize\<close> comes from the platform's \<^verbatim>\<open>nls\<close> module and is a parameter here.\<close>

definition editToolData :: "(string \<Rightarrow> string \<Rightarrow> string) \<Rightarrow> IToolData" where
  "editToolData localize =
     \<lparr>tool_id = ''vscode_editFile'',
      tags = [''vscode_editing''],
      displayName = localize ''chat.tools.editFile'' ''Edit File'',
      modelDescription =
        ''Edit a file in the workspace. Use this tool once per file that needs to be modified, even if there are multiple changes for a file. Generate the ''
        @ [CHR 0x22] @ ''explanation'' @ [CHR 0x22] @ '' property first. '' @ codeInstructions,
      inputSchema =
        \<lparr>schema_type = ''object'',
         properties =
           [(''explanation'',
             \<lparr>property_type = ''string'',
              description = ''A short explanation of the edit being made. Can be the same as the explanation you showed to the user.''\<rparr>),
            (''filePath'',
             \<lparr>property_type = ''string'',
              description = ''An absolute path to the file to edit''\<rparr>),
            (''code'',
             \<lparr>property_type = ''string'',
              description = ''The code change to apply to the file. '' @ codeInstructions\<rparr>)],
         required = [''explanation'', ''filePath'', ''code'']\<rparr>\<rparr>"

text \<open>
  An instance of the class \<^verbatim>\<open>EditTool\<close> is the class with its six services injected;
  its \<^verbatim>\<open>invoke\<close> method is \<open>invoke\<close> above on those services.
\<close>

datatype ('u, 't, 'e, 'r) IToolImpl = EditTool "('u, 't, 'e, 'r) services"

fun impl_invoke ::
  "('u, 't, 'e, 'r) IToolImpl \<Rightarrow> IToolInvocation \<Rightarrow> 't
     \<Rightarrow> ('u, 't, 'e, 'r) call list \<times> IToolResult outcome" where
  "impl_invoke (EditTool svc) = invoke svc"

text \<open>The calls that the constructor makes on the tools service.\<close>

datatype ('u, 't, 'e, 'r) registration =
    RegisterToolData IToolData
  | RegisterToolImplementation string "('u, 't, 'e, 'r) IToolImpl"

text \<open>
  The constructor of \<^verbatim>\<open>BuiltinToolsContribution\<close>. \<^verbatim>\<open>instantiationService.createInstance\<close>
  is the injection of the services; the result is the list of registrations made.
\<close>

definition BuiltinToolsContribution ::
  "(string \<Rightarrow> string \<Rightarrow> string) \<Rightarrow> ('u, 't, 'e, 'r) services \<Rightarrow> ('u, 't, 'e, 'r) registration list" where
  "BuiltinToolsContribution localize instantiationService =
     (let editTool = EditTool instantiationService
      in [RegisterToolData (editToolData localize),
          RegisterToolImplementation (tool_id (editToolData localize)) editTool])"

section \<open>Vocabulary of the properties\<close>

text \<open>The target of an invocation, \<^verbatim>\<open>URI.file(parameters.filePath)\<close>.\<close>

definition target :: "('u, 't, 'e, 'r) services \<Rightarrow> IToolInvocation \<Rightarrow> 'u" where
  "target svc invocation = URI_file svc (filePath (parameters invocation))"

text \<open>The request that an invocation hands to the code mapper.\<close>

definition mapperRequest :: "('u, 't, 'e, 'r) services \<Rightarrow> IToolInvocation \<Rightarrow> 'u ICodeMapperRequest" where
  "mapperRequest svc invocation =
     \<lparr>codeBlocks = [\<lparr>block_code = code (parameters invocation),
                     resource = target svc invocation,
                     markdownBeforeBlock = explanation (parameters invocation)\<rparr>]\<rparr>"

text \<open>The progress events of a trace, in order: what the chat transcript receives.\<close>

fun transcript :: "('u, 't, 'e, 'r) call list \<Rightarrow> ('u, 'e) IChatProgress list" where
  "transcript [] = []"
| "transcript (AcceptResponseProgress request p # trace) = p # transcript trace"
| "transcript (c # trace) = transcript trace"

text \<open>The three opening progress events and the closing one.\<close>

definition opening_events :: "('u, 't, 'e, 'r) services \<Rightarrow> IToolInvocation \<Rightarrow> ('u, 'e) IChatProgress list" where
  "opening_events svc invocation =
     [markdownContent (MarkdownString fence),
      codeblockUri (target svc invocation),
      markdownContent (MarkdownString (code (parameters invocation) @ fence))]"

definition closing_event :: "('u, 't, 'e, 'r) services \<Rightarrow> IToolInvocation \<Rightarrow> ('u, 'e) IChatProgress" where
  "closing_event svc invocation = textEdit (target svc invocation) [] (Some True)"

text \<open>The success payload.\<close>

definition success :: IToolResult where
  "success = \<lparr>content = [\<lparr>part_kind = ''text'', part_value = ''The file was edited successfully''\<rparr>]\<rparr>"

text \<open>The values of the observable that the autorun of an invocation runs on.\<close>

definition observed :: "('u, 't, 'e, 'r) services \<Rightarrow> 'u IChatEditingSession option list" where
  "observed svc = fst (currentEditingSessionObs svc) # snd (currentEditingSessionObs svc)"

text \<open>
  The calls of an invocation up to the session lookup, up to the read of the current
  editing session, and up to the closing progress event.
\<close>

definition trace_validated ::
  "('u, 't, 'e, 'r) services \<Rightarrow> IToolInvocation \<Rightarrow> 't \<Rightarrow> IToolInvocationContext
     \<Rightarrow> ('u, 't, 'e, 'r) call list" where
  "trace_validated svc invocation token ctx =
     [IsInsideWorkspace (target svc invocation),
      FileIsIgnored (target svc invocation) token,
      GetSession (sessionId ctx)]"

definition trace_announced ::
  "('u, 't, 'e, 'r) services \<Rightarrow> IToolInvocation \<Rightarrow> 't \<Rightarrow> IToolInvocationContext
     \<Rightarrow> 'r ChatModel \<Rightarrow> ('u, 't, 'e, 'r) call list" where
  "trace_announced svc invocation token ctx model =
     trace_validated svc invocation token ctx
     @ map (AcceptResponseProgress (at_last (getRequests model))) (opening_events svc invocation)
     @ [CurrentEditingSession]"

definition trace_mapped ::
  "('u, 't, 'e, 'r) services \<Rightarrow> IToolInvocation \<Rightarrow> 't \<Rightarrow> IToolInvocationContext
     \<Rightarrow> 'r ChatModel \<Rightarrow> ('u, 't, 'e, 'r) call list" where
  "trace_mapped svc invocation token ctx model =
     trace_announced svc invocation token ctx model
     @ [MapCode (mapperRequest svc invocation) token]
     @ map (editSink (at_last (getRequests model)))
         (fst (mapCode svc (mapperRequest svc invocation) token))
     @ [AcceptResponseProgress (at_last (getRequests model)) (closing_event svc invocation)]"

text \<open>
  The calls of an invocation from the resolution of the awaited promise on, given the
  values that the observable still takes: the runs before the code resumes, the save, the
  runs after it.
\<close>

definition trace_resumed ::
  "('u, 't, 'e, 'r) services \<Rightarrow> IToolInvocation \<Rightarrow> 'u IChatEditingSession option list
     \<Rightarrow> ('u, 't, 'e, 'r) call list" where
  "trace_resumed svc invocation later =
     map AutorunRun (take (runsBeforeContinuation svc) later)
     @ [Save (target svc invocation)]
     @ map AutorunRun (drop (runsBeforeContinuation svc) later)"

text \<open>Kinds of call.\<close>

fun is_progress :: "('u, 't, 'e, 'r) call \<Rightarrow> bool" where
  "is_progress (AcceptResponseProgress request p) = True"
| "is_progress _ = False"

fun is_session_check :: "('u, 't, 'e, 'r) call \<Rightarrow> bool" where
  "is_session_check CurrentEditingSession = True"
| "is_session_check _ = False"

fun is_mapper :: "('u, 't, 'e, 'r) call \<Rightarrow> bool" where
  "is_mapper (MapCode q t) = True"
| "is_mapper _ = False"

fun is_autorun :: "('u, 't, 'e, 'r) call \<Rightarrow> bool" where
  "is_autorun (AutorunRun s) = True"
| "is_autorun _ = False"

fun is_save :: "('u, 't, 'e, 'r) call \<Rightarrow> bool" where
  "is_save (Save u) = True"
| "is_save _ = False"

text \<open>The cancellation token that a call receives, if it receives one.\<close>

fun token_of :: "('u, 't, 'e, 'r) call \<Rightarrow> 't option" where
  "token_of (FileIsIgnored u t) = Some t"
| "token_of (MapCode q t) = Some t"
| "token_of _ = None"

text \<open>The same call with another token in the place of the one it receives, if any.\<close>

fun with_token :: "'t \<Rightarrow> ('u, 't, 'e, 'r) call \<Rightarrow> ('u, 't, 'e, 'r) call" where
  "with_token t' (FileIsIgnored u t) = FileIsIgnored u t'"
| "with_token t' (MapCode q t) = MapCode q t'"
| "with_token t' c = c"

definition token_calls :: "('u, 't, 'e, 'r) call list \<Rightarrow> ('u, 't, 'e, 'r) call list" where
  "token_calls trace = filter (\<lambda>c. token_of c \<noteq> None) trace"

text \<open>The calls made before the first call of a kind.\<close>

definition calls_before ::
  "(('u, 't, 'e, 'r) call \<Rightarrow> bool) \<Rightarrow> ('u, 't, 'e, 'r) call list \<Rightarrow> ('u, 't, 'e, 'r) call list" where
  "calls_before kind trace = takeWhile (\<lambda>c. \<not> kind c) trace"

text \<open>Whether the promise was rejected.\<close>

fun throws :: "'a outcome \<Rightarrow> bool" where
  "throws (Threw e) = True"
| "throws _ = False"

text \<open>The five failure cases that the specification lists.\<close>

definition no_context :: "IToolInvocation \<Rightarrow> bool" where
  "no_context invocation = (invocation_context invocation = None)"

definition outside_workspace :: "('u, 't, 'e, 'r) services \<Rightarrow> IToolInvocation \<Rightarrow> bool" where
  "outside_workspace svc invocation = (\<not> isInsideWorkspace svc (target svc invocation))"

definition ignored_file :: "('u, 't, 'e, 'r) services \<Rightarrow> IToolInvocation \<Rightarrow> 't \<Rightarrow> bool" where
  "ignored_file svc invocation token = fileIsIgnored svc (target svc invocation) token"

definition no_matching_editing_session :: "('u, 't, 'e, 'r) services \<Rightarrow> IToolInvocation \<Rightarrow> bool" where
  "no_matching_editing_session svc invocation =
     (case currentEditingSession svc of
        None \<Rightarrow> True
      | Some session \<Rightarrow>
          Some (chatSessionId session) \<noteq> map_option sessionId (invocation_context invocation))"

definition mapper_error :: "('u, 't, 'e, 'r) services \<Rightarrow> IToolInvocation \<Rightarrow> 't \<Rightarrow> bool" where
  "mapper_error svc invocation token =
     (case snd (mapCode svc (mapperRequest svc invocation) token) of
        None \<Rightarrow> False
      | Some result \<Rightarrow>
          (case errorMessage result of
             None \<Rightarrow> False
           | Some msg \<Rightarrow> msg \<noteq> []))"

definition five_cases :: "('u, 't, 'e, 'r) services \<Rightarrow> IToolInvocation \<Rightarrow> 't \<Rightarrow> bool" where
  "five_cases svc invocation token =
     (no_context invocation \<or> outside_workspace svc invocation \<or> ignored_file svc invocation token
      \<or> no_matching_editing_session svc invocation \<or> mapper_error svc invocation token)"

text \<open>The chat service has no session under the invocation's session id.\<close>

definition session_missing :: "('u, 't, 'e, 'r) services \<Rightarrow> IToolInvocation \<Rightarrow> bool" where
  "session_missing svc invocation =
     (case invocation_context invocation of
        None \<Rightarrow> False
      | Some ctx \<Rightarrow> getSession svc (sessionId ctx) = None)"

text \<open>
  The invocation's session id resolves to an existing chat session, and the chat service
  answers with the session that was asked for: the model carries that id.
\<close>

definition session_resolves :: "('u, 't, 'e, 'r) services \<Rightarrow> IToolInvocation \<Rightarrow> bool" where
  "session_resolves svc invocation =
     (case invocation_context invocation of
        None \<Rightarrow> True
      | Some ctx \<Rightarrow>
          (case getSession svc (sessionId ctx) of
             None \<Rightarrow> False
           | Some model \<Rightarrow> model_sessionId model = sessionId ctx))"

text \<open>The autorun resolves in one of its runs.\<close>

definition condition_observed :: "('u, 't, 'e, 'r) services \<Rightarrow> IToolInvocation \<Rightarrow> bool" where
  "condition_observed svc invocation =
     list_ex (autorun_resolves svc (target svc invocation)) (observed svc)"

text \<open>A call that hands work over: to the mapper, to the awaited autorun, to the save.\<close>

fun is_delegation :: "('u, 't, 'e, 'r) call \<Rightarrow> bool" where
  "is_delegation (MapCode q t) = True"
| "is_delegation (AutorunRun s) = True"
| "is_delegation (Save u) = True"
| "is_delegation _ = False"

text \<open>
  The fourth validation as line 132 makes it: the current editing session is present and
  its chat session id is the id of the model that the chat service returned.
\<close>

definition editing_session_matches :: "('u, 't, 'e, 'r) services \<Rightarrow> IToolInvocation \<Rightarrow> bool" where
  "editing_session_matches svc invocation =
     (case invocation_context invocation of
        None \<Rightarrow> False
      | Some ctx \<Rightarrow>
          (case getSession svc (sessionId ctx) of
             None \<Rightarrow> False
           | Some model \<Rightarrow>
               map_option chatSessionId (currentEditingSession svc) = Some (model_sessionId model)))"

text \<open>A progress event appended for an undefined request.\<close>

fun undefined_request :: "('u, 't, 'e, 'r) call \<Rightarrow> bool" where
  "undefined_request (AcceptResponseProgress None p) = True"
| "undefined_request _ = False"

text \<open>
  The invocation's session id resolves to a session that holds at least one request, or to
  a session that holds none.
\<close>

definition session_with_request :: "('u, 't, 'e, 'r) services \<Rightarrow> IToolInvocation \<Rightarrow> bool" where
  "session_with_request svc invocation =
     (case invocation_context invocation of
        None \<Rightarrow> False
      | Some ctx \<Rightarrow>
          (case getSession svc (sessionId ctx) of
             None \<Rightarrow> False
           | Some model \<Rightarrow> getRequests model \<noteq> []))"

definition session_without_request :: "('u, 't, 'e, 'r) services \<Rightarrow> IToolInvocation \<Rightarrow> bool" where
  "session_without_request svc invocation =
     (case invocation_context invocation of
        None \<Rightarrow> False
      | Some ctx \<Rightarrow>
          (case getSession svc (sessionId ctx) of
             None \<Rightarrow> False
           | Some model \<Rightarrow> getRequests model = []))"

text \<open>The first three validations pass, so that lines 116 and 117 are reached.\<close>

definition reaches_session_lookup :: "('u, 't, 'e, 'r) services \<Rightarrow> IToolInvocation \<Rightarrow> 't \<Rightarrow> bool" where
  "reaches_session_lookup svc invocation token =
     (\<not> no_context invocation \<and> \<not> outside_workspace svc invocation
      \<and> \<not> ignored_file svc invocation token)"

section \<open>Sample invocations\<close>

text \<open>
  A workspace with one file, one chat session \<open>s1\<close> with one request, and an editing session
  for it whose entry for the file is being modified at the first run of the autorun and
  idle at the second. URIs are strings here, tokens, edits and requests are numbers.
\<close>

definition demo_uri :: string where
  "demo_uri = ''file:///work/a.ts''"

definition demo_services :: "(string, nat, nat, nat) services" where
  "demo_services =
     \<lparr>URI_file = (\<lambda>path. ''file://'' @ path),
      uri_toString = (\<lambda>u. u),
      isInsideWorkspace = (\<lambda>u. u = demo_uri),
      fileIsIgnored = (\<lambda>u t. False),
      getSession = (\<lambda>sid. if sid = ''s1''
                            then Some \<lparr>model_sessionId = ''s1'', getRequests = [1]\<rparr> else None),
      currentEditingSession = Some \<lparr>chatSessionId = ''s1'', entries = []\<rparr>,
      mapCode = (\<lambda>q t. ([(demo_uri, [7])], Some \<lparr>errorMessage = None\<rparr>)),
      currentEditingSessionObs =
        (Some \<lparr>chatSessionId = ''s1'',
               entries = [\<lparr>modifiedURI = demo_uri, isCurrentlyBeingModified = True\<rparr>]\<rparr>,
         [Some \<lparr>chatSessionId = ''s1'',
                entries = [\<lparr>modifiedURI = demo_uri, isCurrentlyBeingModified = False\<rparr>]\<rparr>]),
      runsBeforeContinuation = 0\<rparr>"

definition demo_invocation :: IToolInvocation where
  "demo_invocation =
     \<lparr>parameters = \<lparr>filePath = ''/work/a.ts'', explanation = ''rename'', code = ''x''\<rparr>,
      invocation_context = Some \<lparr>sessionId = ''s1''\<rparr>\<rparr>"

text \<open>The same invocation without a context.\<close>

definition demo_no_context :: IToolInvocation where
  "demo_no_context = demo_invocation\<lparr>invocation_context := None\<rparr>"

text \<open>The chat service no longer has the session.\<close>

definition demo_lost_session :: "(string, nat, nat, nat) services" where
  "demo_lost_session = demo_services\<lparr>getSession := (\<lambda>sid. None)\<rparr>"

text \<open>The session has no request yet.\<close>

definition demo_no_requests :: "(string, nat, nat, nat) services" where
  "demo_no_requests =
     demo_services\<lparr>getSession := (\<lambda>sid. Some \<lparr>model_sessionId = sid, getRequests = []\<rparr>)\<rparr>"

text \<open>There is no current editing session.\<close>

definition demo_no_editing :: "(string, nat, nat, nat) services" where
  "demo_no_editing = demo_services\<lparr>currentEditingSession := None\<rparr>"

text \<open>The mapper reports an error after one edit.\<close>

definition demo_mapper_fails :: "(string, nat, nat, nat) services" where
  "demo_mapper_fails =
     demo_services\<lparr>mapCode := (\<lambda>q t. ([(demo_uri, [7])], Some \<lparr>errorMessage = Some ''no model''\<rparr>))\<rparr>"

text \<open>The entry of the file never stops being modified.\<close>

definition demo_never_idle :: "(string, nat, nat, nat) services" where
  "demo_never_idle =
     demo_services\<lparr>currentEditingSessionObs :=
       (Some \<lparr>chatSessionId = ''s1'',
              entries = [\<lparr>modifiedURI = demo_uri, isCurrentlyBeingModified = True\<rparr>]\<rparr>, [])\<rparr>"

text \<open>
  The entry of the file is being modified, then idle, then being modified again, and the
  autorun sees this third value before the code after the \<^verbatim>\<open>await\<close> resumes.
\<close>

definition demo_relapse :: "(string, nat, nat, nat) services" where
  "demo_relapse =
     demo_services\<lparr>currentEditingSessionObs :=
       (Some \<lparr>chatSessionId = ''s1'',
              entries = [\<lparr>modifiedURI = demo_uri, isCurrentlyBeingModified = True\<rparr>]\<rparr>,
        [Some \<lparr>chatSessionId = ''s1'',
               entries = [\<lparr>modifiedURI = demo_uri, isCurrentlyBeingModified = False\<rparr>]\<rparr>,
         Some \<lparr>chatSessionId = ''s1'',
               entries = [\<lparr>modifiedURI = demo_uri, isCurrentlyBeingModified = True\<rparr>]\<rparr>]),
       runsBeforeContinuation := 1\<rparr>"

section \<open>The paths through an invocation\<close>

lemma await_autorun_snd:
  "(snd (await_autorun svc uri obs) = None) = (\<not> list_ex (autorun_resolves svc uri) obs)"
  by (induction obs) simp_all

text \<open>
  The eight ways through \<open>invoke\<close>: for each, the conditions under which it is taken, the
  calls made and the way the promise settles.
\<close>

lemma invoke_cases:
  obtains
    (NoContext) "invocation_context invocation = None"
      "invoke svc invocation token =
         ([], Threw (Error ''toolInvocationToken is required for this tool''))"
  | (Outside) ctx where "invocation_context invocation = Some ctx"
      "\<not> isInsideWorkspace svc (target svc invocation)"
      "invoke svc invocation token =
         ([IsInsideWorkspace (target svc invocation)],
          Threw (Error (''File '' @ filePath (parameters invocation)
            @ '' can't be edited because it's not inside the current workspace'')))"
  | (Ignored) ctx where "invocation_context invocation = Some ctx"
      "isInsideWorkspace svc (target svc invocation)"
      "fileIsIgnored svc (target svc invocation) token"
      "invoke svc invocation token =
         ([IsInsideWorkspace (target svc invocation), FileIsIgnored (target svc invocation) token],
          Threw (Error (''File '' @ filePath (parameters invocation)
            @ '' can't be edited because it is configured to be ignored by Copilot'')))"
  | (NoSession) ctx where "invocation_context invocation = Some ctx"
      "isInsideWorkspace svc (target svc invocation)"
      "\<not> fileIsIgnored svc (target svc invocation) token"
      "getSession svc (sessionId ctx) = None"
      "invoke svc invocation token = (trace_validated svc invocation token ctx, Threw TypeError)"
  | (NoEditingSession) ctx model where "invocation_context invocation = Some ctx"
      "isInsideWorkspace svc (target svc invocation)"
      "\<not> fileIsIgnored svc (target svc invocation) token"
      "getSession svc (sessionId ctx) = Some model"
      "map_option chatSessionId (currentEditingSession svc) \<noteq> Some (model_sessionId model)"
      "invoke svc invocation token =
         (trace_announced svc invocation token ctx model,
          Threw (Error ''This tool must be called from within an editing session''))"
  | (MapperError) ctx model msg where "invocation_context invocation = Some ctx"
      "isInsideWorkspace svc (target svc invocation)"
      "\<not> fileIsIgnored svc (target svc invocation) token"
      "getSession svc (sessionId ctx) = Some model"
      "map_option chatSessionId (currentEditingSession svc) = Some (model_sessionId model)"
      "truthy_errorMessage (snd (mapCode svc (mapperRequest svc invocation) token)) = Some msg"
      "invoke svc invocation token =
         (trace_mapped svc invocation token ctx model, Threw (Error msg))"
  | (NeverResolved) ctx model where "invocation_context invocation = Some ctx"
      "isInsideWorkspace svc (target svc invocation)"
      "\<not> fileIsIgnored svc (target svc invocation) token"
      "getSession svc (sessionId ctx) = Some model"
      "map_option chatSessionId (currentEditingSession svc) = Some (model_sessionId model)"
      "truthy_errorMessage (snd (mapCode svc (mapperRequest svc invocation) token)) = None"
      "\<not> list_ex (autorun_resolves svc (target svc invocation)) (observed svc)"
      "invoke svc invocation token =
         (trace_mapped svc invocation token ctx model
            @ fst (await_autorun svc (target svc invocation) (observed svc)), Pending)"
  | (Saved) ctx model later where "invocation_context invocation = Some ctx"
      "isInsideWorkspace svc (target svc invocation)"
      "\<not> fileIsIgnored svc (target svc invocation) token"
      "getSession svc (sessionId ctx) = Some model"
      "map_option chatSessionId (currentEditingSession svc) = Some (model_sessionId model)"
      "truthy_errorMessage (snd (mapCode svc (mapperRequest svc invocation) token)) = None"
      "list_ex (autorun_resolves svc (target svc invocation)) (observed svc)"
      "invoke svc invocation token =
         (trace_mapped svc invocation token ctx model
            @ fst (await_autorun svc (target svc invocation) (observed svc))
            @ trace_resumed svc invocation later, Returned success)"
      "snd (await_autorun svc (target svc invocation) (observed svc)) = Some later"
proof (cases "invocation_context invocation")
  case None
  then show ?thesis using NoContext by (simp add: invoke_def)
next
  case (Some ctx)
  note ctx = Some
  show ?thesis
  proof (cases "isInsideWorkspace svc (target svc invocation)")
    case False
    then show ?thesis using Outside [OF ctx] ctx by (simp add: invoke_def target_def Let_def)
  next
    case inside: True
    show ?thesis
    proof (cases "fileIsIgnored svc (target svc invocation) token")
      case True
      then show ?thesis using Ignored [OF ctx] ctx inside
        by (simp add: invoke_def target_def Let_def)
    next
      case notign: False
      show ?thesis
      proof (cases "getSession svc (sessionId ctx)")
        case None
        then show ?thesis using NoSession [OF ctx] ctx inside notign
          by (simp add: invoke_def target_def Let_def trace_validated_def)
      next
        case (Some model)
        note model = Some
        show ?thesis
        proof (cases "map_option chatSessionId (currentEditingSession svc) = Some (model_sessionId model)")
          case False
          then show ?thesis using NoEditingSession [OF ctx inside notign model] ctx inside notign model
            by (simp add: invoke_def target_def Let_def trace_validated_def trace_announced_def
                opening_events_def)
        next
          case editing: True
          show ?thesis
          proof (cases "truthy_errorMessage (snd (mapCode svc (mapperRequest svc invocation) token))")
            case (Some msg)
            then show ?thesis
              using MapperError [OF ctx inside notign model editing] ctx inside notign model editing
              by (simp add: invoke_def target_def Let_def trace_validated_def trace_announced_def
                  trace_mapped_def opening_events_def closing_event_def mapperRequest_def)
          next
            case None
            note ok = None
            show ?thesis
            proof (cases "snd (await_autorun svc (target svc invocation) (observed svc))")
              case (Some later)
              with await_autorun_snd [of svc "target svc invocation" "observed svc"]
              have seen: "list_ex (autorun_resolves svc (target svc invocation)) (observed svc)"
                by simp
              have "invoke svc invocation token =
                      (trace_mapped svc invocation token ctx model
                         @ fst (await_autorun svc (target svc invocation) (observed svc))
                         @ trace_resumed svc invocation later, Returned success)"
                using ctx inside notign model editing ok Some
                by (simp add: invoke_def target_def Let_def trace_validated_def trace_announced_def
                    trace_mapped_def trace_resumed_def opening_events_def closing_event_def
                    mapperRequest_def observed_def success_def)
              from Saved [OF ctx inside notign model editing ok seen this Some]
              show ?thesis .
            next
              case None
              with await_autorun_snd [of svc "target svc invocation" "observed svc"]
              have unseen: "\<not> list_ex (autorun_resolves svc (target svc invocation)) (observed svc)"
                by simp
              have "invoke svc invocation token =
                      (trace_mapped svc invocation token ctx model
                         @ fst (await_autorun svc (target svc invocation) (observed svc)), Pending)"
                using ctx inside notign model editing ok None
                by (simp add: invoke_def target_def Let_def trace_validated_def trace_announced_def
                    trace_mapped_def opening_events_def closing_event_def
                    mapperRequest_def observed_def)
              from NeverResolved [OF ctx inside notign model editing ok unseen this]
              show ?thesis .
            qed
          qed
        qed
      qed
    qed
  qed
qed

section \<open>The transcript and the autorun along the paths\<close>

lemma transcript_append: "transcript (xs @ ys) = transcript xs @ transcript ys"
  by (induction xs rule: transcript.induct) simp_all

lemma transcript_progress: "transcript (map (AcceptResponseProgress request) ps) = ps"
  by (induction ps) simp_all

lemma transcript_editSink:
  "transcript (map (editSink request) cbs) = map (\<lambda>cb. textEdit (fst cb) (snd cb) None) cbs"
  by (induction cbs) (simp_all add: editSink_def)

lemma transcript_autorun: "transcript (fst (await_autorun svc uri obs)) = []"
  by (induction obs) simp_all

lemma await_autorun_resolved:
  assumes "snd (await_autorun svc uri obs) = Some later"
  shows "\<exists>earlier s. fst (await_autorun svc uri obs) = map AutorunRun earlier @ [AutorunRun s]
           \<and> obs = earlier @ s # later
           \<and> autorun_resolves svc uri s
           \<and> \<not> list_ex (autorun_resolves svc uri) earlier"
  using assms
proof (induction obs)
  case Nil
  then show ?case by simp
next
  case (Cons a obs)
  show ?case
  proof (cases "autorun_resolves svc uri a")
    case True
    with Cons.prems have "fst (await_autorun svc uri (a # obs)) = map AutorunRun [] @ [AutorunRun a]"
      and "a # obs = [] @ a # later"
      by simp_all
    with True show ?thesis by (intro exI [of _ "[]"] exI [of _ a]) simp
  next
    case False
    with Cons.prems have "snd (await_autorun svc uri obs) = Some later" by simp
    from Cons.IH [OF this] obtain earlier s where
      h: "fst (await_autorun svc uri obs) = map AutorunRun earlier @ [AutorunRun s]"
        "obs = earlier @ s # later"
        "autorun_resolves svc uri s" "\<not> list_ex (autorun_resolves svc uri) earlier"
      by blast
    from False h show ?thesis
      by (intro exI [of _ "a # earlier"] exI [of _ s]) simp
  qed
qed

lemma transcript_runs: "transcript (map AutorunRun vs) = []"
  by (induction vs) simp_all

lemma transcript_resumed: "transcript (trace_resumed svc invocation later) = []"
  by (simp add: trace_resumed_def transcript_append transcript_runs)

lemma transcript_validated: "transcript (trace_validated svc invocation token ctx) = []"
  by (simp add: trace_validated_def)

lemma transcript_announced:
  "transcript (trace_announced svc invocation token ctx model) = opening_events svc invocation"
  by (simp add: trace_announced_def transcript_append transcript_validated transcript_progress
     )

lemma transcript_mapped:
  "transcript (trace_mapped svc invocation token ctx model) =
     opening_events svc invocation
     @ map (\<lambda>cb. textEdit (fst cb) (snd cb) None) (fst (mapCode svc (mapperRequest svc invocation) token))
     @ [closing_event svc invocation]"
  by (simp add: trace_mapped_def transcript_append transcript_announced transcript_editSink
     )

lemma kinds_validated:
  "\<not> list_ex is_progress (trace_validated svc invocation token ctx)
   \<and> \<not> list_ex is_session_check (trace_validated svc invocation token ctx)
   \<and> \<not> list_ex is_mapper (trace_validated svc invocation token ctx)
   \<and> \<not> list_ex is_autorun (trace_validated svc invocation token ctx)
   \<and> \<not> list_ex is_save (trace_validated svc invocation token ctx)"
  by (simp add: trace_validated_def)

lemma kinds_announced:
  "\<not> list_ex is_mapper (trace_announced svc invocation token ctx model)
   \<and> \<not> list_ex is_autorun (trace_announced svc invocation token ctx model)
   \<and> \<not> list_ex is_save (trace_announced svc invocation token ctx model)"
  by (simp add: trace_announced_def trace_validated_def opening_events_def)

lemma kinds_editSink:
  "\<not> list_ex is_session_check (map (editSink request) cbs)
   \<and> \<not> list_ex is_mapper (map (editSink request) cbs)
   \<and> \<not> list_ex is_autorun (map (editSink request) cbs)
   \<and> \<not> list_ex is_save (map (editSink request) cbs)"
  by (induction cbs) (simp_all add: editSink_def)

lemma kinds_mapped:
  "list_ex is_mapper (trace_mapped svc invocation token ctx model)
   \<and> \<not> list_ex is_autorun (trace_mapped svc invocation token ctx model)
   \<and> \<not> list_ex is_save (trace_mapped svc invocation token ctx model)"
  by (simp add: trace_mapped_def kinds_announced kinds_editSink)

lemma kinds_autorun:
  "\<not> list_ex is_progress (fst (await_autorun svc uri obs))
   \<and> \<not> list_ex is_session_check (fst (await_autorun svc uri obs))
   \<and> \<not> list_ex is_mapper (fst (await_autorun svc uri obs))
   \<and> \<not> list_ex is_save (fst (await_autorun svc uri obs))"
  by (induction obs) simp_all

lemma kinds_runs:
  "\<not> list_ex is_progress (map AutorunRun vs)
   \<and> \<not> list_ex is_session_check (map AutorunRun vs)
   \<and> \<not> list_ex is_mapper (map AutorunRun vs)
   \<and> \<not> list_ex is_save (map AutorunRun vs)"
  by (induction vs) simp_all

lemma kinds_resumed:
  "\<not> list_ex is_progress (trace_resumed svc invocation later)
   \<and> \<not> list_ex is_session_check (trace_resumed svc invocation later)
   \<and> \<not> list_ex is_mapper (trace_resumed svc invocation later)"
  by (simp add: trace_resumed_def kinds_runs)

lemma Save_kind: "\<not> list_ex is_save trace \<Longrightarrow> Save u \<notin> set trace"
  by (induction trace) auto

lemma MapCode_kind: "\<not> list_ex is_mapper trace \<Longrightarrow> MapCode q t \<notin> set trace"
  by (induction trace) auto

lemma autorun_resolves_entry:
  assumes "autorun_resolves svc uri s"
  shows "\<exists>session e. s = Some session
           \<and> find (\<lambda>e. uri_toString svc (modifiedURI e) = uri_toString svc uri) (entries session) = Some e
           \<and> e \<in> set (entries session)
           \<and> uri_toString svc (modifiedURI e) = uri_toString svc uri
           \<and> \<not> isCurrentlyBeingModified e"
  using assms
  by (auto simp add: autorun_resolves_def find_Some_iff split: option.splits)

lemma last_trace_mapped:
  "last (trace_mapped svc invocation token ctx model)
     = AcceptResponseProgress (at_last (getRequests model)) (closing_event svc invocation)"
  by (simp add: trace_mapped_def)

lemma no_kind_filter: "\<not> list_ex P xs \<Longrightarrow> filter P xs = []"
  by (induction xs) (auto split: if_splits)

lemma mapper_call_of_trace:
  fixes trace :: "('u, 't, 'e, 'r) call list"
  assumes tr: "trace = trace_mapped svc invocation token ctx model @ rest"
    and rest: "\<not> list_ex is_mapper rest"
    and mem: "MapCode q t \<in> set trace"
  shows "q = mapperRequest svc invocation \<and> t = token
         \<and> length (filter is_mapper trace) = 1
         \<and> (\<exists>pre request post.
               trace = pre @ [MapCode q t]
                 @ map (\<lambda>cb. AcceptResponseProgress request (textEdit (fst cb) (snd cb) None))
                     (fst (mapCode svc q t))
                 @ post
               \<and> \<not> list_ex is_mapper pre)"
proof -
  let ?ann = "trace_announced svc invocation token ctx model"
  let ?req = "at_last (getRequests model)"
  let ?cbs = "fst (mapCode svc (mapperRequest svc invocation) token)"
  let ?post = "[AcceptResponseProgress ?req (closing_event svc invocation)] @ rest"
  let ?snk = "map (editSink ?req) ?cbs :: ('u, 't, 'e, 'r) call list"
  have sink: "?snk
                = map (\<lambda>cb. AcceptResponseProgress ?req (textEdit (fst cb) (snd cb) None)) ?cbs"
    by (simp add: editSink_def)
  have shape: "trace = ?ann @ [MapCode (mapperRequest svc invocation) token]
                 @ map (\<lambda>cb. AcceptResponseProgress ?req (textEdit (fst cb) (snd cb) None)) ?cbs
                 @ ?post"
    using tr sink by (simp add: trace_mapped_def)
  have ann: "\<not> list_ex is_mapper ?ann"
    using kinds_announced [of svc invocation token ctx model] by simp
  have snk: "\<not> list_ex is_mapper ?snk"
    by (simp add: kinds_editSink)
  have "MapCode q t \<in> set ?ann \<or> MapCode q t = MapCode (mapperRequest svc invocation) token
          \<or> MapCode q t \<in> set ?snk \<or> MapCode q t \<in> set rest"
    using mem tr by (auto simp add: trace_mapped_def)
  with MapCode_kind [OF ann] MapCode_kind [OF snk] MapCode_kind [OF rest]
  have eq: "q = mapperRequest svc invocation" "t = token" by auto
  have one: "length (filter is_mapper trace) = 1"
    using tr no_kind_filter [OF ann] no_kind_filter [OF snk] no_kind_filter [OF rest]
    by (simp add: trace_mapped_def)
  from shape eq ann have
    "\<exists>pre request post.
       trace = pre @ [MapCode q t]
         @ map (\<lambda>cb. AcceptResponseProgress request (textEdit (fst cb) (snd cb) None))
             (fst (mapCode svc q t))
         @ post
       \<and> \<not> list_ex is_mapper pre"
    by (intro exI [of _ ?ann] exI [of _ ?req] exI [of _ ?post]) simp
  with eq one show ?thesis by simp
qed

lemma token_calls_append: "token_calls (xs @ ys) = token_calls xs @ token_calls ys"
  by (simp add: token_calls_def)

lemma token_calls_Cons:
  "token_calls (c # cs) = (if token_of c = None then token_calls cs else c # token_calls cs)"
  by (simp add: token_calls_def)

lemma token_calls_Nil: "token_calls [] = []"
  by (simp add: token_calls_def)

lemma token_calls_validated:
  "token_calls (trace_validated svc invocation token ctx)
     = [FileIsIgnored (target svc invocation) token]"
  by (simp add: token_calls_def trace_validated_def)

lemma token_calls_announced:
  "token_calls (trace_announced svc invocation token ctx model)
     = [FileIsIgnored (target svc invocation) token]"
  by (simp add: token_calls_append token_calls_validated trace_announced_def opening_events_def
      token_calls_Cons token_calls_Nil)

lemma token_calls_editSink: "token_calls (map (editSink request) cbs) = []"
  by (induction cbs) (simp_all add: token_calls_def editSink_def)

lemma token_calls_mapped:
  "token_calls (trace_mapped svc invocation token ctx model)
     = [FileIsIgnored (target svc invocation) token, MapCode (mapperRequest svc invocation) token]"
  by (simp add: token_calls_append token_calls_announced token_calls_editSink trace_mapped_def
      token_calls_Cons token_calls_Nil)

lemma token_calls_autorun: "token_calls (fst (await_autorun svc uri obs)) = []"
  by (induction obs) (simp_all add: token_calls_def)

lemma token_calls_runs: "token_calls (map AutorunRun vs) = []"
  by (induction vs) (simp_all add: token_calls_def)

lemma token_calls_resumed: "token_calls (trace_resumed svc invocation later) = []"
  by (simp add: trace_resumed_def token_calls_append token_calls_runs token_calls_Cons
      token_calls_Nil)

lemma with_token_editSink: "with_token t' (editSink request cb) = editSink request cb"
  by (simp add: editSink_def)

lemma with_token_runs: "map (with_token t') (map AutorunRun vs) = map AutorunRun vs"
  by (induction vs) simp_all

lemma with_token_autorun:
  "map (with_token t') (fst (await_autorun svc uri obs)) = fst (await_autorun svc uri obs)"
  by (induction obs) simp_all

lemma invoke_token_independent:
  assumes "fileIsIgnored svc (target svc invocation) t' = fileIsIgnored svc (target svc invocation) t"
    and "mapCode svc (mapperRequest svc invocation) t' = mapCode svc (mapperRequest svc invocation) t"
  shows "snd (invoke svc invocation t') = snd (invoke svc invocation t)
         \<and> fst (invoke svc invocation t') = map (with_token t') (fst (invoke svc invocation t))"
proof (cases rule: invoke_cases [of invocation svc t])
  case NoContext
  then show ?thesis by (simp add: invoke_def)
next
  case (Outside ctx)
  then show ?thesis by (simp add: invoke_def target_def Let_def)
next
  case (Ignored ctx)
  then show ?thesis using assms by (simp add: invoke_def target_def Let_def)
next
  case (NoSession ctx)
  then show ?thesis using assms
    by (simp add: invoke_def target_def Let_def trace_validated_def)
next
  case (NoEditingSession ctx model)
  then show ?thesis using assms
    by (simp add: invoke_def target_def Let_def trace_validated_def trace_announced_def
        opening_events_def)
next
  case (MapperError ctx model msg)
  then show ?thesis using assms
    by (simp add: invoke_def target_def Let_def trace_validated_def trace_announced_def
        trace_mapped_def opening_events_def closing_event_def mapperRequest_def
        with_token_editSink)
next
  case (NeverResolved ctx model)
  then show ?thesis using assms
      await_autorun_snd [of svc "target svc invocation" "observed svc"]
    by (simp add: invoke_def target_def Let_def trace_validated_def trace_announced_def
        trace_mapped_def opening_events_def closing_event_def mapperRequest_def observed_def
        with_token_editSink with_token_autorun)
next
  case (Saved ctx model later)
  then show ?thesis using assms
    by (simp add: invoke_def target_def Let_def trace_validated_def trace_announced_def
        trace_mapped_def trace_resumed_def opening_events_def closing_event_def
        mapperRequest_def observed_def success_def
        with_token_editSink with_token_autorun with_token_runs)
qed

lemma defined_request_validated:
  "\<not> list_ex undefined_request (trace_validated svc invocation token ctx)"
  by (simp add: trace_validated_def)

lemma defined_request_mapped:
  assumes "getRequests model \<noteq> []"
  shows "\<not> list_ex undefined_request (trace_mapped svc invocation token ctx model)"
    and "\<not> list_ex undefined_request (trace_announced svc invocation token ctx model)"
  using assms
  by (simp_all add: trace_mapped_def trace_announced_def trace_validated_def opening_events_def
      at_last_def list_ex_iff editSink_def image_iff)

lemma defined_request_autorun: "\<not> list_ex undefined_request (fst (await_autorun svc uri obs))"
  by (induction obs) simp_all

lemma defined_request_resumed:
  "\<not> list_ex undefined_request (trace_resumed svc invocation later)"
  by (auto simp add: trace_resumed_def list_ex_iff)

lemma undefined_request_announced:
  assumes "getRequests model = []"
  shows "list_ex undefined_request (trace_announced svc invocation token ctx model)"
  using assms by (simp add: trace_announced_def opening_events_def at_last_def)

lemma calls_before_all: "\<not> list_ex kind xs \<Longrightarrow> calls_before kind xs = xs"
  by (induction xs) (simp_all add: calls_before_def)

lemma calls_before_stop:
  "\<not> list_ex kind xs \<Longrightarrow> kind y \<Longrightarrow> calls_before kind (xs @ y # ys) = xs"
  by (induction xs) (simp_all add: calls_before_def)

lemma await_autorun_first:
  "\<exists>rest. fst (await_autorun svc uri (observed svc))
            = AutorunRun (fst (currentEditingSessionObs svc)) # rest"
  by (simp add: observed_def)

lemma delegation_kinds:
  "is_delegation c = (is_mapper c \<or> is_autorun c \<or> is_save c)"
  by (cases c) simp_all

lemma trace_announced_split:
  "trace_announced svc invocation token ctx model
     = trace_validated svc invocation token ctx
       @ AcceptResponseProgress (at_last (getRequests model)) (markdownContent (MarkdownString fence))
       # [AcceptResponseProgress (at_last (getRequests model)) (codeblockUri (target svc invocation)),
          AcceptResponseProgress (at_last (getRequests model))
            (markdownContent (MarkdownString (code (parameters invocation) @ fence))),
          CurrentEditingSession]"
  by (simp add: trace_announced_def opening_events_def)

lemma trace_announced_split2:
  "trace_announced svc invocation token ctx model
     = (trace_validated svc invocation token ctx
         @ map (AcceptResponseProgress (at_last (getRequests model))) (opening_events svc invocation))
       @ CurrentEditingSession # []"
  by (simp add: trace_announced_def)

lemma trace_mapped_split:
  "trace_mapped svc invocation token ctx model
     = trace_announced svc invocation token ctx model
       @ MapCode (mapperRequest svc invocation) token
       # (map (editSink (at_last (getRequests model)))
            (fst (mapCode svc (mapperRequest svc invocation) token))
          @ [AcceptResponseProgress (at_last (getRequests model)) (closing_event svc invocation)])"
  by (simp add: trace_mapped_def)

lemma before_progress:
  "calls_before is_progress (trace_announced svc invocation token ctx model @ rest)
     = trace_validated svc invocation token ctx"
  using calls_before_stop [of is_progress "trace_validated svc invocation token ctx"
      "AcceptResponseProgress (at_last (getRequests model)) (markdownContent (MarkdownString fence))"]
    kinds_validated [of svc invocation token ctx]
  by (simp add: trace_announced_split)

lemma before_session_check:
  "transcript (calls_before is_session_check (trace_announced svc invocation token ctx model @ rest))
     = opening_events svc invocation"
proof -
  let ?pre = "trace_validated svc invocation token ctx
         @ map (AcceptResponseProgress (at_last (getRequests model))) (opening_events svc invocation)"
  have "\<not> list_ex is_session_check ?pre"
    by (simp add: trace_validated_def opening_events_def)
  from calls_before_stop [OF this, of CurrentEditingSession rest]
  have "calls_before is_session_check (trace_announced svc invocation token ctx model @ rest) = ?pre"
    by (simp add: trace_announced_split2)
  then show ?thesis
    by (simp add: transcript_append transcript_validated transcript_progress)
qed

lemma before_mapper:
  "calls_before is_mapper (trace_mapped svc invocation token ctx model @ rest)
     = trace_announced svc invocation token ctx model"
  using calls_before_stop [of is_mapper "trace_announced svc invocation token ctx model"
      "MapCode (mapperRequest svc invocation) token"]
    kinds_announced [of svc invocation token ctx model]
  by (simp add: trace_mapped_split)

lemma before_delegation:
  "calls_before is_delegation (trace_mapped svc invocation token ctx model @ rest)
     = trace_announced svc invocation token ctx model"
proof -
  have "\<not> list_ex is_delegation (trace_announced svc invocation token ctx model)"
    using kinds_announced [of svc invocation token ctx model]
    by (simp add: list_ex_iff delegation_kinds)
  from calls_before_stop [OF this, of "MapCode (mapperRequest svc invocation) token"]
  show ?thesis by (simp add: trace_mapped_split)
qed

lemma before_autorun:
  "\<not> list_ex is_save (calls_before is_autorun
        (trace_mapped svc invocation token ctx model
           @ fst (await_autorun svc (target svc invocation) (observed svc)) @ rest))"
proof -
  obtain runs where
    "fst (await_autorun svc (target svc invocation) (observed svc))
       = AutorunRun (fst (currentEditingSessionObs svc)) # runs"
    using await_autorun_first [of svc "target svc invocation"] by blast
  moreover have "\<not> list_ex is_autorun (trace_mapped svc invocation token ctx model)"
    using kinds_mapped [of svc invocation token ctx model] by simp
  ultimately have "calls_before is_autorun
        (trace_mapped svc invocation token ctx model
           @ fst (await_autorun svc (target svc invocation) (observed svc)) @ rest)
      = trace_mapped svc invocation token ctx model"
    using calls_before_stop [of is_autorun "trace_mapped svc invocation token ctx model"
        "AutorunRun (fst (currentEditingSessionObs svc))" "runs @ rest"]
    by simp
  then show ?thesis using kinds_mapped [of svc invocation token ctx model] by simp
qed

section \<open>Evaluation of the sample invocations\<close>

lemmas demo_defs = demo_services_def demo_invocation_def demo_uri_def demo_no_context_def
  demo_lost_session_def demo_no_requests_def demo_no_editing_def demo_mapper_fails_def
  demo_never_idle_def demo_relapse_def

lemmas eval_defs = invoke_def Let_def at_last_def truthy_errorMessage_def autorun_resolves_def
  editSink_def target_def mapperRequest_def observed_def

lemmas case_defs = five_cases_def no_context_def outside_workspace_def ignored_file_def
  no_matching_editing_session_def mapper_error_def session_missing_def
  session_resolves_def condition_observed_def

section \<open>When an invocation fails\<close>

text \<open>
  C1, as the specification has it: an invocation raises an error in exactly five cases and
  completes without throwing in every other run. The second half fails: when no run of the
  autorun sees the entry of the file idle, the chat session is there, none of the five
  cases holds, and the invocation neither throws nor completes.
\<close>

theorem C1_five_cases_counterexample:
  "session_resolves demo_never_idle demo_invocation
   \<and> \<not> five_cases demo_never_idle demo_invocation 0
   \<and> snd (invoke demo_never_idle demo_invocation 0) = Pending"
  by (simp add: demo_defs eval_defs case_defs)

text \<open>
  C1, amended: where the invocation's session id resolves to an existing chat session, an
  invocation raises an error in exactly the five cases of the specification: no context,
  the file outside the workspace, the file ignored, no current editing session or one for
  another chat session, a non-empty error message in the mapper's result. In every other
  run it completes without throwing if some run of the autorun sees the awaited
  condition, and never settles otherwise.
\<close>

theorem C1_invoke_error_cases:
  assumes "session_resolves svc invocation"
  shows "(throws (snd (invoke svc invocation token)) \<longleftrightarrow> five_cases svc invocation token)
         \<and> (\<not> throws (snd (invoke svc invocation token)) \<longrightarrow>
               snd (invoke svc invocation token)
                 = (if condition_observed svc invocation then Returned success else Pending))"
proof (cases rule: invoke_cases [of invocation svc token])
  case NoContext
  then show ?thesis by (simp add: case_defs)
next
  case (Outside ctx)
  then show ?thesis by (simp add: case_defs)
next
  case (Ignored ctx)
  then show ?thesis by (simp add: case_defs)
next
  case (NoSession ctx)
  then show ?thesis using assms by (simp add: case_defs)
next
  case (NoEditingSession ctx model)
  then show ?thesis using assms by (auto simp add: case_defs split: option.splits)
next
  case (MapperError ctx model msg)
  then show ?thesis
    by (auto simp add: case_defs truthy_errorMessage_def split: option.splits if_splits)
next
  case (NeverResolved ctx model)
  then show ?thesis using assms
    by (auto simp add: case_defs truthy_errorMessage_def split: option.splits if_splits)
next
  case (Saved ctx model later)
  then show ?thesis using assms
    by (auto simp add: case_defs truthy_errorMessage_def split: option.splits if_splits)
qed

text \<open>
  The sample invocation meets the hypothesis, is in none of the five cases and returns;
  with a failing mapper it is in the fifth case and throws.
\<close>

theorem C1_invoke_error_cases_witness:
  "session_resolves demo_services demo_invocation
   \<and> \<not> five_cases demo_services demo_invocation 0
   \<and> snd (invoke demo_services demo_invocation 0) = Returned success
   \<and> session_resolves demo_mapper_fails demo_invocation
   \<and> five_cases demo_mapper_fails demo_invocation 0
   \<and> throws (snd (invoke demo_mapper_fails demo_invocation 0))"
  using C1_invoke_error_cases [of demo_services demo_invocation 0]
    C1_invoke_error_cases [of demo_mapper_fails demo_invocation 0]
  by (simp add: demo_defs case_defs eval_defs)

section \<open>Validations, progress and delegation\<close>

text \<open>
  C2, as the specification has it: all four validations are made before any progress
  event is appended. This fails for the fourth. With no current editing session, the
  sample invocation appends the three opening events, reads the current editing session
  only then, and throws.
\<close>

theorem C2_validation_order_counterexample:
  "invoke demo_no_editing demo_invocation 0
     = ([IsInsideWorkspace demo_uri, FileIsIgnored demo_uri 0, GetSession ''s1'',
         AcceptResponseProgress (Some 1) (markdownContent (MarkdownString fence)),
         AcceptResponseProgress (Some 1) (codeblockUri demo_uri),
         AcceptResponseProgress (Some 1) (markdownContent (MarkdownString (''x'' @ fence))),
         CurrentEditingSession],
        Threw (Error ''This tool must be called from within an editing session''))"
  by (simp add: demo_defs eval_defs)

text \<open>
  C2, amended. In every invocation:
  \<^item> a progress event is appended only when the context is present, the file is inside the
    workspace and is not ignored, and the calls before the first progress event are the
    workspace check, the ignore check and the session lookup;
  \<^item> the current editing session is read only after the three opening progress events;
  \<^item> the mapper, the autorun and the save are reached only when all four validations have
    passed, and what the transcript received before the first of them is the three
    opening events, the editing session having been read;
  \<^item> no run of the autorun precedes the mapper call, and no save precedes the first run of
    the autorun.
\<close>

theorem C2_validation_order:
  "(list_ex is_progress (fst (invoke svc invocation token)) \<longrightarrow>
      \<not> outside_workspace svc invocation \<and> \<not> ignored_file svc invocation token
      \<and> (\<exists>ctx. invocation_context invocation = Some ctx
            \<and> calls_before is_progress (fst (invoke svc invocation token))
                = [IsInsideWorkspace (target svc invocation),
                   FileIsIgnored (target svc invocation) token,
                   GetSession (sessionId ctx)]))
   \<and> (list_ex is_session_check (fst (invoke svc invocation token)) \<longrightarrow>
        transcript (calls_before is_session_check (fst (invoke svc invocation token)))
          = opening_events svc invocation)
   \<and> (list_ex is_delegation (fst (invoke svc invocation token)) \<longrightarrow>
        \<not> no_context invocation \<and> \<not> outside_workspace svc invocation
        \<and> \<not> ignored_file svc invocation token \<and> editing_session_matches svc invocation
        \<and> list_ex is_session_check (calls_before is_delegation (fst (invoke svc invocation token)))
        \<and> transcript (calls_before is_delegation (fst (invoke svc invocation token)))
            = opening_events svc invocation)
   \<and> \<not> list_ex is_autorun (calls_before is_mapper (fst (invoke svc invocation token)))
   \<and> \<not> list_ex is_save (calls_before is_autorun (fst (invoke svc invocation token)))"
proof (cases rule: invoke_cases [of invocation svc token])
  case NoContext
  then show ?thesis by (simp add: calls_before_def)
next
  case (Outside ctx)
  then show ?thesis by (simp add: calls_before_def)
next
  case (Ignored ctx)
  then show ?thesis by (simp add: calls_before_def)
next
  case (NoSession ctx)
  then show ?thesis by (simp add: calls_before_def trace_validated_def)
next
  case (NoEditingSession ctx model)
  have tr: "fst (invoke svc invocation token) = trace_announced svc invocation token ctx model @ []"
    using NoEditingSession by simp
  have k: "\<not> list_ex is_delegation (fst (invoke svc invocation token))"
    "\<not> list_ex is_mapper (fst (invoke svc invocation token))"
    "\<not> list_ex is_autorun (fst (invoke svc invocation token))"
    "\<not> list_ex is_save (fst (invoke svc invocation token))"
    using tr kinds_announced [of svc invocation token ctx model]
    by (simp_all add: list_ex_iff delegation_kinds)
  show ?thesis
    using NoEditingSession(1-3) k calls_before_all [OF k(2)] calls_before_all [OF k(3)]
    by (simp add: tr before_progress before_session_check
        no_context_def outside_workspace_def ignored_file_def trace_validated_def
        del: append_Nil2)
next
  case (MapperError ctx model msg)
  have tr: "fst (invoke svc invocation token) = trace_mapped svc invocation token ctx model @ []"
    using MapperError by simp
  have tr': "fst (invoke svc invocation token)
      = trace_announced svc invocation token ctx model
        @ (MapCode (mapperRequest svc invocation) token
           # (map (editSink (at_last (getRequests model)))
                (fst (mapCode svc (mapperRequest svc invocation) token))
              @ [AcceptResponseProgress (at_last (getRequests model)) (closing_event svc invocation)]))"
    using MapperError by (simp add: trace_mapped_split)
  have k: "\<not> list_ex is_autorun (fst (invoke svc invocation token))"
    "\<not> list_ex is_save (fst (invoke svc invocation token))"
    using MapperError kinds_mapped [of svc invocation token ctx model] by simp_all
  have a: "calls_before is_progress (fst (invoke svc invocation token))
             = trace_validated svc invocation token ctx"
    "transcript (calls_before is_session_check (fst (invoke svc invocation token)))
             = opening_events svc invocation"
    unfolding tr' by (rule before_progress, rule before_session_check)
  have b: "calls_before is_delegation (fst (invoke svc invocation token))
             = trace_announced svc invocation token ctx model"
    "calls_before is_mapper (fst (invoke svc invocation token))
             = trace_announced svc invocation token ctx model"
    unfolding tr by (rule before_delegation, rule before_mapper)
  show ?thesis
    using MapperError(1-5) k calls_before_all [OF k(1)] kinds_announced [of svc invocation token ctx model]
    by (simp add: a b transcript_announced no_context_def outside_workspace_def ignored_file_def
        editing_session_matches_def trace_validated_def)
       (simp add: trace_announced_def)
next
  case (NeverResolved ctx model)
  let ?runs = "fst (await_autorun svc (target svc invocation) (observed svc))"
  have tr: "fst (invoke svc invocation token)
              = trace_mapped svc invocation token ctx model @ ?runs @ []"
    using NeverResolved by simp
  have tr': "fst (invoke svc invocation token)
      = trace_announced svc invocation token ctx model
        @ (MapCode (mapperRequest svc invocation) token
           # (map (editSink (at_last (getRequests model)))
                (fst (mapCode svc (mapperRequest svc invocation) token))
              @ [AcceptResponseProgress (at_last (getRequests model)) (closing_event svc invocation)])
           @ ?runs)"
    using NeverResolved by (simp add: trace_mapped_split)
  have a: "calls_before is_progress (fst (invoke svc invocation token))
             = trace_validated svc invocation token ctx"
    "transcript (calls_before is_session_check (fst (invoke svc invocation token)))
             = opening_events svc invocation"
    unfolding tr' by (rule before_progress, rule before_session_check)
  have b: "calls_before is_delegation (fst (invoke svc invocation token))
             = trace_announced svc invocation token ctx model"
    "calls_before is_mapper (fst (invoke svc invocation token))
             = trace_announced svc invocation token ctx model"
    "\<not> list_ex is_save (calls_before is_autorun (fst (invoke svc invocation token)))"
    unfolding tr by (rule before_delegation, rule before_mapper, rule before_autorun)
  show ?thesis
    using NeverResolved(1-5) kinds_announced [of svc invocation token ctx model]
    by (simp add: a b transcript_announced no_context_def outside_workspace_def ignored_file_def
        editing_session_matches_def trace_validated_def)
       (simp add: trace_announced_def)
next
  case (Saved ctx model later)
  let ?runs = "fst (await_autorun svc (target svc invocation) (observed svc))"
  have tr: "fst (invoke svc invocation token)
              = trace_mapped svc invocation token ctx model @ ?runs
                  @ trace_resumed svc invocation later"
    using Saved by simp
  have tr': "fst (invoke svc invocation token)
      = trace_announced svc invocation token ctx model
        @ (MapCode (mapperRequest svc invocation) token
           # (map (editSink (at_last (getRequests model)))
                (fst (mapCode svc (mapperRequest svc invocation) token))
              @ [AcceptResponseProgress (at_last (getRequests model)) (closing_event svc invocation)])
           @ ?runs @ trace_resumed svc invocation later)"
    using Saved by (simp add: trace_mapped_split)
  have a: "calls_before is_progress (fst (invoke svc invocation token))
             = trace_validated svc invocation token ctx"
    "transcript (calls_before is_session_check (fst (invoke svc invocation token)))
             = opening_events svc invocation"
    unfolding tr' by (rule before_progress, rule before_session_check)
  have b: "calls_before is_delegation (fst (invoke svc invocation token))
             = trace_announced svc invocation token ctx model"
    "calls_before is_mapper (fst (invoke svc invocation token))
             = trace_announced svc invocation token ctx model"
    "\<not> list_ex is_save (calls_before is_autorun (fst (invoke svc invocation token)))"
    unfolding tr by (rule before_delegation, rule before_mapper, rule before_autorun)
  show ?thesis
    using Saved(1-5) kinds_announced [of svc invocation token ctx model]
    by (simp add: a b transcript_announced no_context_def outside_workspace_def ignored_file_def
        editing_session_matches_def trace_validated_def)
       (simp add: trace_announced_def)
qed

text \<open>The sample invocation appends progress, reads the editing session and delegates.\<close>

theorem C2_validation_order_witness:
  "list_ex is_progress (fst (invoke demo_services demo_invocation 0))
   \<and> list_ex is_session_check (fst (invoke demo_services demo_invocation 0))
   \<and> list_ex is_delegation (fst (invoke demo_services demo_invocation 0))
   \<and> editing_session_matches demo_services demo_invocation
   \<and> calls_before is_progress (fst (invoke demo_services demo_invocation 0))
       = [IsInsideWorkspace demo_uri, FileIsIgnored demo_uri 0, GetSession ''s1'']
   \<and> transcript (calls_before is_delegation (fst (invoke demo_services demo_invocation 0)))
       = opening_events demo_services demo_invocation"
  using C2_validation_order [of demo_services demo_invocation 0]
  by (simp add: demo_defs eval_defs calls_before_def editing_session_matches_def
      opening_events_def)

section \<open>Order of the progress events and the save\<close>

text \<open>
  C3: in every invocation that returns, the save is called once, and by then the transcript
  has received, in this order: a markdown event that opens a code fence (a newline, four
  backquotes, a newline), the URI of the file, a markdown event with the code followed by
  the closing fence, one text edit for each callback that the mapper made on the sink, and
  a last text edit with no edits and \<^verbatim>\<open>done: true\<close>. No progress event comes after the
  save.
\<close>

theorem C3_progress_order_before_save:
  "snd (invoke svc invocation token) = Returned result \<longrightarrow>
     (\<exists>pre post.
        fst (invoke svc invocation token) = pre @ Save (target svc invocation) # post
        \<and> transcript pre
            = [markdownContent (MarkdownString ''\<newline>````\<newline>''),
               codeblockUri (target svc invocation),
               markdownContent
                 (MarkdownString (code (parameters invocation) @ ''\<newline>````\<newline>''))]
              @ map (\<lambda>cb. textEdit (fst cb) (snd cb) None)
                  (fst (mapCode svc (mapperRequest svc invocation) token))
              @ [textEdit (target svc invocation) [] (Some True)]
        \<and> transcript post = []
        \<and> \<not> list_ex is_save pre
        \<and> \<not> list_ex is_save post)"
proof (cases rule: invoke_cases [of invocation svc token])
  case (Saved ctx model later)
  let ?pre = "trace_mapped svc invocation token ctx model
                @ fst (await_autorun svc (target svc invocation) (observed svc))
                @ map AutorunRun (take (runsBeforeContinuation svc) later)"
  let ?post = "map AutorunRun (drop (runsBeforeContinuation svc) later)"
  have tr: "fst (invoke svc invocation token) = ?pre @ Save (target svc invocation) # ?post"
    using Saved by (simp add: trace_resumed_def)
  have pre: "transcript ?pre
      = [markdownContent (MarkdownString ''\<newline>````\<newline>''),
         codeblockUri (target svc invocation),
         markdownContent
           (MarkdownString (code (parameters invocation) @ ''\<newline>````\<newline>''))]
        @ map (\<lambda>cb. textEdit (fst cb) (snd cb) None)
            (fst (mapCode svc (mapperRequest svc invocation) token))
        @ [textEdit (target svc invocation) [] (Some True)]"
    by (simp add: transcript_append transcript_mapped transcript_autorun transcript_runs
        opening_events_def closing_event_def fence_def)
  have post: "transcript ?post = []" "\<not> list_ex is_save ?post"
    by (simp_all add: transcript_runs kinds_runs)
  have nosave: "\<not> list_ex is_save ?pre"
    using kinds_mapped [of svc invocation token ctx model]
      kinds_autorun [of svc "target svc invocation" "observed svc"]
    by (simp add: kinds_runs)
  from tr pre post nosave show ?thesis
    by (intro impI exI [of _ ?pre] exI [of _ ?post]) simp
qed simp_all

text \<open>The sample invocation returns; its transcript has one forwarded edit.\<close>

theorem C3_progress_order_before_save_witness:
  "snd (invoke demo_relapse demo_invocation 0) = Returned success
   \<and> transcript (take 13 (fst (invoke demo_relapse demo_invocation 0)))
       = [markdownContent (MarkdownString ''\<newline>````\<newline>''), codeblockUri demo_uri,
          markdownContent (MarkdownString (''x'' @ ''\<newline>````\<newline>'')),
          textEdit demo_uri [7] None, textEdit demo_uri [] (Some True)]
   \<and> drop 13 (fst (invoke demo_relapse demo_invocation 0)) = [Save demo_uri]"
  using C3_progress_order_before_save [of demo_relapse demo_invocation 0 success]
  by (simp add: demo_defs eval_defs success_def fence_def)

text \<open>
  C4, as the specification has it: the save is never called while the entry of the file
  still reports being modified. The autorun is not disposed and the code after the
  \<^verbatim>\<open>await\<close> resumes later than the run that resolves: when the entry is idle in one run and
  being modified again in the next, the sample invocation saves right after a run that
  read the entry as being modified.
\<close>

theorem C4_save_while_modified_counterexample:
  "snd (invoke demo_relapse demo_invocation 0) = Returned success
   \<and> drop 10 (fst (invoke demo_relapse demo_invocation 0))
       = [AutorunRun (Some \<lparr>chatSessionId = ''s1'',
            entries = [\<lparr>modifiedURI = demo_uri, isCurrentlyBeingModified = True\<rparr>]\<rparr>),
          AutorunRun (Some \<lparr>chatSessionId = ''s1'',
            entries = [\<lparr>modifiedURI = demo_uri, isCurrentlyBeingModified = False\<rparr>]\<rparr>),
          AutorunRun (Some \<lparr>chatSessionId = ''s1'',
            entries = [\<lparr>modifiedURI = demo_uri, isCurrentlyBeingModified = True\<rparr>]\<rparr>),
          Save demo_uri]"
  by (simp add: demo_defs eval_defs success_def)

text \<open>
  C4, amended: a save of an invocation is a save of the target, it is the only one, and
  it comes after a run of the autorun on a value of the observable in which the editing
  session is present and the entry that \<^verbatim>\<open>find\<close> returns for the target, an entry of that
  session whose URI prints like the target's, reads \<^verbatim>\<open>isCurrentlyBeingModified\<close> as false.
  That run is the first such run: in every earlier run the entry found, if any, was being
  modified. Between that run and the save, and after the save, there are only further
  runs of the autorun.
\<close>

theorem C4_save_after_condition:
  "Save u \<in> set (fst (invoke svc invocation token)) \<longrightarrow>
     u = target svc invocation
     \<and> (\<exists>pre earlier s later session e.
           fst (invoke svc invocation token)
             = pre @ map AutorunRun earlier @ [AutorunRun s]
                 @ map AutorunRun (take (runsBeforeContinuation svc) later)
                 @ [Save u]
                 @ map AutorunRun (drop (runsBeforeContinuation svc) later)
           \<and> \<not> list_ex is_autorun pre
           \<and> \<not> list_ex is_save pre
           \<and> observed svc = earlier @ s # later
           \<and> s = Some session
           \<and> find (\<lambda>e. uri_toString svc (modifiedURI e) = uri_toString svc (target svc invocation))
                (entries session) = Some e
           \<and> e \<in> set (entries session)
           \<and> uri_toString svc (modifiedURI e) = uri_toString svc (target svc invocation)
           \<and> \<not> isCurrentlyBeingModified e
           \<and> (\<forall>s' \<in> set earlier. \<forall>session' e'.
                 s' = Some session'
                 \<and> find (\<lambda>e. uri_toString svc (modifiedURI e)
                               = uri_toString svc (target svc invocation))
                      (entries session') = Some e'
                 \<longrightarrow> isCurrentlyBeingModified e'))"
proof (cases rule: invoke_cases [of invocation svc token])
  case NoContext
  then show ?thesis by simp
next
  case (Outside ctx)
  then show ?thesis by simp
next
  case (Ignored ctx)
  then show ?thesis by simp
next
  case (NoSession ctx)
  then have "\<not> list_ex is_save (fst (invoke svc invocation token))"
    using kinds_validated [of svc invocation token ctx] by simp
  from Save_kind [OF this] show ?thesis by simp
next
  case (NoEditingSession ctx model)
  then have "\<not> list_ex is_save (fst (invoke svc invocation token))"
    using kinds_announced [of svc invocation token ctx model] by simp
  from Save_kind [OF this] show ?thesis by simp
next
  case (MapperError ctx model msg)
  then have "\<not> list_ex is_save (fst (invoke svc invocation token))"
    using kinds_mapped [of svc invocation token ctx model] by simp
  from Save_kind [OF this] show ?thesis by simp
next
  case (NeverResolved ctx model)
  have "\<not> list_ex is_save (fst (invoke svc invocation token))"
    using NeverResolved(8) kinds_mapped [of svc invocation token ctx model]
      kinds_autorun [of svc "target svc invocation" "observed svc"] by simp
  from Save_kind [OF this] show ?thesis by simp
next
  case (Saved ctx model later)
  let ?uri = "target svc invocation"
  let ?d = "runsBeforeContinuation svc"
  let ?pre = "trace_mapped svc invocation token ctx model"
  from await_autorun_resolved [OF Saved(9)] obtain earlier s where
    runs: "fst (await_autorun svc ?uri (observed svc)) = map AutorunRun earlier @ [AutorunRun s]"
    and obs: "observed svc = earlier @ s # later"
    and s: "autorun_resolves svc ?uri s"
    and first: "\<not> list_ex (autorun_resolves svc ?uri) earlier"
    by blast
  from autorun_resolves_entry [OF s] obtain session e where
    e: "s = Some session"
      "find (\<lambda>e. uri_toString svc (modifiedURI e) = uri_toString svc ?uri) (entries session) = Some e"
      "e \<in> set (entries session)"
      "uri_toString svc (modifiedURI e) = uri_toString svc ?uri"
      "\<not> isCurrentlyBeingModified e"
    by blast
  have tr: "fst (invoke svc invocation token)
              = ?pre @ map AutorunRun earlier @ [AutorunRun s]
                  @ map AutorunRun (take ?d later) @ [Save ?uri] @ map AutorunRun (drop ?d later)"
    using Saved(8) runs by (simp add: trace_resumed_def)
  have pre: "\<not> list_ex is_autorun ?pre" "\<not> list_ex is_save ?pre"
    using kinds_mapped [of svc invocation token ctx model] by simp_all
  have before: "\<forall>s' \<in> set earlier. \<forall>session' e'.
                 s' = Some session'
                 \<and> find (\<lambda>e. uri_toString svc (modifiedURI e) = uri_toString svc ?uri)
                      (entries session') = Some e'
                 \<longrightarrow> isCurrentlyBeingModified e'"
    using first by (auto simp add: list_ex_iff autorun_resolves_def)
  show ?thesis
  proof (intro impI conjI)
    assume "Save u \<in> set (fst (invoke svc invocation token))"
    with tr have "Save u \<in> set ?pre \<or> u = ?uri" by auto
    with Save_kind [OF pre(2)] show u: "u = ?uri" by blast
    from tr u have "fst (invoke svc invocation token)
              = ?pre @ map AutorunRun earlier @ [AutorunRun s]
                  @ map AutorunRun (take ?d later) @ [Save u] @ map AutorunRun (drop ?d later)"
      by simp
    with pre obs e before show "\<exists>pre earlier s later session e.
           fst (invoke svc invocation token)
             = pre @ map AutorunRun earlier @ [AutorunRun s]
                 @ map AutorunRun (take (runsBeforeContinuation svc) later)
                 @ [Save u]
                 @ map AutorunRun (drop (runsBeforeContinuation svc) later)
           \<and> \<not> list_ex is_autorun pre
           \<and> \<not> list_ex is_save pre
           \<and> observed svc = earlier @ s # later
           \<and> s = Some session
           \<and> find (\<lambda>e. uri_toString svc (modifiedURI e) = uri_toString svc (target svc invocation))
                (entries session) = Some e
           \<and> e \<in> set (entries session)
           \<and> uri_toString svc (modifiedURI e) = uri_toString svc (target svc invocation)
           \<and> \<not> isCurrentlyBeingModified e
           \<and> (\<forall>s' \<in> set earlier. \<forall>session' e'.
                 s' = Some session'
                 \<and> find (\<lambda>e. uri_toString svc (modifiedURI e)
                               = uri_toString svc (target svc invocation))
                      (entries session') = Some e'
                 \<longrightarrow> isCurrentlyBeingModified e')"
      by (intro exI [of _ ?pre] exI [of _ earlier] exI [of _ s] exI [of _ later]
          exI [of _ session] exI [of _ e]) simp
  qed
qed

text \<open>
  The sample invocation saves; the run on the idle entry is the second one, and one
  more run comes between it and the save.
\<close>

theorem C4_save_after_condition_witness:
  "Save demo_uri \<in> set (fst (invoke demo_relapse demo_invocation 0))
   \<and> (\<exists>pre earlier s later session e.
         fst (invoke demo_relapse demo_invocation 0)
           = pre @ map AutorunRun earlier @ [AutorunRun s]
               @ map AutorunRun (take (runsBeforeContinuation demo_relapse) later)
               @ [Save demo_uri]
               @ map AutorunRun (drop (runsBeforeContinuation demo_relapse) later)
         \<and> observed demo_relapse = earlier @ s # later
         \<and> s = Some session
         \<and> e \<in> set (entries session)
         \<and> \<not> isCurrentlyBeingModified e)"
proof -
  have "Save demo_uri \<in> set (fst (invoke demo_relapse demo_invocation 0))"
    by (simp add: demo_defs eval_defs)
  with C4_save_after_condition [of demo_uri demo_relapse demo_invocation 0]
  show ?thesis by blast
qed

section \<open>The result\<close>

text \<open>
  C5, as the specification has it: every invocation that does not raise an error returns
  the payload. This fails when the awaited condition is never seen: the sample invocation
  whose entry never stops being modified raises nothing and returns nothing.
\<close>

theorem C5_result_counterexample:
  "\<not> throws (snd (invoke demo_never_idle demo_invocation 0))
   \<and> snd (invoke demo_never_idle demo_invocation 0) = Pending"
  by (simp add: demo_defs eval_defs)

text \<open>
  C5, amended: an invocation that does not raise an error returns, if some run of the
  autorun sees the awaited condition, a payload with exactly one content element, of kind
  \<^verbatim>\<open>text\<close> and with the constant value \<^verbatim>\<open>The file was edited successfully\<close>, whatever
  the parameters; if no run sees the condition, it never settles.
\<close>

theorem C5_result:
  "\<not> throws (snd (invoke svc invocation token)) \<longrightarrow>
     snd (invoke svc invocation token)
       = (if condition_observed svc invocation
          then Returned \<lparr>content = [\<lparr>part_kind = ''text'',
                                     part_value = ''The file was edited successfully''\<rparr>]\<rparr>
          else Pending)"
  by (cases rule: invoke_cases [of invocation svc token])
     (simp_all add: condition_observed_def success_def)

text \<open>The sample invocation raises nothing, sees the condition and returns the payload.\<close>

theorem C5_result_witness:
  "\<not> throws (snd (invoke demo_services demo_invocation 0))
   \<and> condition_observed demo_services demo_invocation
   \<and> snd (invoke demo_services demo_invocation 0)
       = Returned \<lparr>content = [\<lparr>part_kind = ''text'',
                                part_value = ''The file was edited successfully''\<rparr>]\<rparr>"
  using C5_result [of demo_services demo_invocation 0]
  by (simp add: demo_defs eval_defs case_defs)

section \<open>The call of the code mapper\<close>

text \<open>
  C6: a call of the mapper in an invocation is the only one; its request has exactly one
  code block, with the code, the URI of the file path and the explanation of the
  parameters; it receives the caller's token; and the calls right after it are one text
  edit progress event, on the request of the chat model, for each callback that the mapper
  makes on the sink.
\<close>

theorem C6_mapper_call:
  "MapCode q t \<in> set (fst (invoke svc invocation token)) \<longrightarrow>
     q = \<lparr>codeBlocks = [\<lparr>block_code = code (parameters invocation),
                         resource = URI_file svc (filePath (parameters invocation)),
                         markdownBeforeBlock = explanation (parameters invocation)\<rparr>]\<rparr>
     \<and> t = token
     \<and> length (filter is_mapper (fst (invoke svc invocation token))) = 1
     \<and> (\<exists>pre request post.
           fst (invoke svc invocation token)
             = pre @ [MapCode q t]
                 @ map (\<lambda>cb. AcceptResponseProgress request (textEdit (fst cb) (snd cb) None))
                     (fst (mapCode svc q t))
                 @ post
           \<and> \<not> list_ex is_mapper pre)"
proof (cases rule: invoke_cases [of invocation svc token])
  case NoContext
  then show ?thesis by simp
next
  case (Outside ctx)
  then show ?thesis by simp
next
  case (Ignored ctx)
  then show ?thesis by simp
next
  case (NoSession ctx)
  then have "\<not> list_ex is_mapper (fst (invoke svc invocation token))"
    using kinds_validated [of svc invocation token ctx] by simp
  from MapCode_kind [OF this] show ?thesis by simp
next
  case (NoEditingSession ctx model)
  then have "\<not> list_ex is_mapper (fst (invoke svc invocation token))"
    using kinds_announced [of svc invocation token ctx model] by simp
  from MapCode_kind [OF this] show ?thesis by simp
next
  case (MapperError ctx model msg)
  have "fst (invoke svc invocation token) = trace_mapped svc invocation token ctx model @ []"
    using MapperError by simp
  from mapper_call_of_trace [OF this] show ?thesis
    by (simp add: mapperRequest_def target_def)
next
  case (NeverResolved ctx model)
  have "fst (invoke svc invocation token) = trace_mapped svc invocation token ctx model
          @ fst (await_autorun svc (target svc invocation) (observed svc))"
    using NeverResolved by simp
  from mapper_call_of_trace [OF this] kinds_autorun [of svc "target svc invocation" "observed svc"]
  show ?thesis by (simp add: mapperRequest_def target_def)
next
  case (Saved ctx model later)
  have "fst (invoke svc invocation token) = trace_mapped svc invocation token ctx model
          @ (fst (await_autorun svc (target svc invocation) (observed svc))
               @ trace_resumed svc invocation later)"
    using Saved by simp
  from mapper_call_of_trace [OF this] kinds_autorun [of svc "target svc invocation" "observed svc"]
    kinds_resumed [of svc invocation later]
  show ?thesis by (simp add: mapperRequest_def target_def)
qed

text \<open>The sample invocation calls the mapper once, with the block of its parameters.\<close>

theorem C6_mapper_call_witness:
  "MapCode \<lparr>codeBlocks = [\<lparr>block_code = ''x'', resource = demo_uri,
                            markdownBeforeBlock = ''rename''\<rparr>]\<rparr> 0
     \<in> set (fst (invoke demo_services demo_invocation 0))
   \<and> length (filter is_mapper (fst (invoke demo_services demo_invocation 0))) = 1"
  using C6_mapper_call [of "\<lparr>codeBlocks = [\<lparr>block_code = ''x'', resource = demo_uri,
                            markdownBeforeBlock = ''rename''\<rparr>]\<rparr>" 0 demo_services demo_invocation 0]
  by (simp add: demo_defs eval_defs)

section \<open>The cancellation token\<close>

text \<open>
  C7: the calls of an invocation that receive a token are the ignore check and the mapper
  call, each with the caller's token, and no other call: both of them in an invocation
  that reaches the mapper, the ignore check alone in one that stops before, none in one
  that stops before the ignore check. The invocation does nothing else with the token:
  for two tokens on which the ignore check and the mapper answer the same, it settles in
  the same way and makes the same calls, up to the token that those two calls carry. In
  particular the runs of the autorun and the save are the same.
\<close>

theorem C7_token:
  "token_calls (fst (invoke svc invocation token))
     = (if list_ex is_mapper (fst (invoke svc invocation token))
        then [FileIsIgnored (target svc invocation) token,
              MapCode (mapperRequest svc invocation) token]
        else if no_context invocation \<or> outside_workspace svc invocation then []
        else [FileIsIgnored (target svc invocation) token])
   \<and> (fileIsIgnored svc (target svc invocation) token'
         = fileIsIgnored svc (target svc invocation) token
       \<and> mapCode svc (mapperRequest svc invocation) token'
           = mapCode svc (mapperRequest svc invocation) token \<longrightarrow>
         snd (invoke svc invocation token') = snd (invoke svc invocation token)
         \<and> fst (invoke svc invocation token')
             = map (with_token token') (fst (invoke svc invocation token)))"
proof
  show "fileIsIgnored svc (target svc invocation) token'
         = fileIsIgnored svc (target svc invocation) token
       \<and> mapCode svc (mapperRequest svc invocation) token'
           = mapCode svc (mapperRequest svc invocation) token \<longrightarrow>
         snd (invoke svc invocation token') = snd (invoke svc invocation token)
         \<and> fst (invoke svc invocation token')
             = map (with_token token') (fst (invoke svc invocation token))"
    using invoke_token_independent [of svc invocation token' token] by blast
next
  show "token_calls (fst (invoke svc invocation token))
     = (if list_ex is_mapper (fst (invoke svc invocation token))
        then [FileIsIgnored (target svc invocation) token,
              MapCode (mapperRequest svc invocation) token]
        else if no_context invocation \<or> outside_workspace svc invocation then []
        else [FileIsIgnored (target svc invocation) token])"
  proof (cases rule: invoke_cases [of invocation svc token])
    case NoContext
    then show ?thesis by (simp add: token_calls_def no_context_def)
  next
    case (Outside ctx)
    then show ?thesis by (simp add: token_calls_def outside_workspace_def)
  next
    case (Ignored ctx)
    then show ?thesis by (simp add: token_calls_def outside_workspace_def no_context_def)
  next
    case (NoSession ctx)
    then show ?thesis using kinds_validated [of svc invocation token ctx]
      by (simp add: token_calls_validated outside_workspace_def no_context_def)
  next
    case (NoEditingSession ctx model)
    then show ?thesis using kinds_announced [of svc invocation token ctx model]
      by (simp add: token_calls_announced outside_workspace_def no_context_def)
  next
    case (MapperError ctx model msg)
    then show ?thesis using kinds_mapped [of svc invocation token ctx model]
      by (simp add: token_calls_mapped)
  next
    case (NeverResolved ctx model)
    then show ?thesis using kinds_mapped [of svc invocation token ctx model]
      by (simp add: token_calls_append token_calls_mapped token_calls_autorun)
  next
    case (Saved ctx model later)
    then show ?thesis using kinds_mapped [of svc invocation token ctx model]
      by (simp add: token_calls_append token_calls_mapped token_calls_autorun
          token_calls_resumed kinds_resumed)
  qed
qed

text \<open>
  The sample invocation reaches the mapper and hands the token 5 to the two calls; the
  sample services answer the same for the tokens 0 and 5, and the two invocations settle
  in the same way.
\<close>

theorem C7_token_witness:
  "list_ex is_mapper (fst (invoke demo_services demo_invocation 5))
   \<and> token_calls (fst (invoke demo_services demo_invocation 5))
       = [FileIsIgnored demo_uri 5,
          MapCode \<lparr>codeBlocks = [\<lparr>block_code = ''x'', resource = demo_uri,
                            markdownBeforeBlock = ''rename''\<rparr>]\<rparr> 5]
   \<and> snd (invoke demo_services demo_invocation 0) = snd (invoke demo_services demo_invocation 5)
   \<and> fst (invoke demo_services demo_invocation 0)
       = map (with_token 0) (fst (invoke demo_services demo_invocation 5))"
  using C7_token [of demo_services demo_invocation 5 0]
  by (simp add: demo_defs eval_defs)

section \<open>Registration\<close>

text \<open>
  C8: the constructor makes exactly two registrations, one of the tool data with the id
  \<^verbatim>\<open>vscode_editFile\<close> and one of an \<^verbatim>\<open>EditTool\<close> instance under the same id. The input
  schema is an object with the properties \<^verbatim>\<open>explanation\<close>, \<^verbatim>\<open>filePath\<close> and \<^verbatim>\<open>code\<close>, all
  of type string and all required.
\<close>

theorem C8_registration:
  "BuiltinToolsContribution localize svc
     = [RegisterToolData (editToolData localize),
        RegisterToolImplementation ''vscode_editFile'' (EditTool svc)]
   \<and> tool_id (editToolData localize) = ''vscode_editFile''
   \<and> schema_type (inputSchema (editToolData localize)) = ''object''
   \<and> map fst (properties (inputSchema (editToolData localize)))
       = [''explanation'', ''filePath'', ''code'']
   \<and> map (\<lambda>p. property_type (snd p)) (properties (inputSchema (editToolData localize)))
       = [''string'', ''string'', ''string'']
   \<and> required (inputSchema (editToolData localize)) = [''explanation'', ''filePath'', ''code'']
   \<and> impl_invoke (EditTool svc) = invoke svc"
  by (simp add: BuiltinToolsContribution_def editToolData_def Let_def)

text \<open>The registrations made for the sample services.\<close>

theorem C8_registration_witness:
  "BuiltinToolsContribution (\<lambda>key message. message) demo_services
     = [RegisterToolData (editToolData (\<lambda>key message. message)),
        RegisterToolImplementation ''vscode_editFile'' (EditTool demo_services)]
   \<and> required (inputSchema (editToolData (\<lambda>key message. message)))
       = [''explanation'', ''filePath'', ''code'']"
  using C8_registration [of "\<lambda>key message. message" demo_services]
  by simp

section \<open>The unguarded session and request\<close>

text \<open>
  C9: the session and its last request are used without a guard.
  \<^item> Where the invocation's session id resolves to a session with at least one request, no
    TypeError is raised and no progress event is appended for an undefined request.
  \<^item> Where lines 116 and 117 are reached and the chat service has no session under the
    id, the invocation raises a TypeError, before any progress event.
  \<^item> Where they are reached and the session holds no request, the request that
    \<^verbatim>\<open>acceptResponseProgress\<close> receives is undefined.
\<close>

theorem C9_unguarded_session:
  "(session_with_request svc invocation \<longrightarrow>
      snd (invoke svc invocation token) \<noteq> Threw TypeError
      \<and> \<not> list_ex undefined_request (fst (invoke svc invocation token)))
   \<and> (reaches_session_lookup svc invocation token \<and> session_missing svc invocation \<longrightarrow>
        snd (invoke svc invocation token) = Threw TypeError
        \<and> transcript (fst (invoke svc invocation token)) = [])
   \<and> (reaches_session_lookup svc invocation token \<and> session_without_request svc invocation \<longrightarrow>
        list_ex undefined_request (fst (invoke svc invocation token)))"
proof (cases rule: invoke_cases [of invocation svc token])
  case NoContext
  then show ?thesis
    by (simp add: session_with_request_def reaches_session_lookup_def no_context_def)
next
  case (Outside ctx)
  then show ?thesis
    by (simp add: reaches_session_lookup_def outside_workspace_def)
next
  case (Ignored ctx)
  then show ?thesis
    by (simp add: reaches_session_lookup_def ignored_file_def)
next
  case (NoSession ctx)
  then show ?thesis
    by (simp add: session_with_request_def session_without_request_def transcript_validated)
next
  case (NoEditingSession ctx model)
  then show ?thesis
    using defined_request_mapped(2) [of model svc invocation token ctx]
      undefined_request_announced [of model svc invocation token ctx]
    by (simp add: session_with_request_def session_without_request_def session_missing_def)
next
  case (MapperError ctx model msg)
  then show ?thesis
    using defined_request_mapped(1) [of model svc invocation token ctx]
      undefined_request_announced [of model svc invocation token ctx]
    by (simp add: session_with_request_def session_without_request_def session_missing_def
        trace_mapped_def)
next
  case (NeverResolved ctx model)
  then show ?thesis
    using defined_request_mapped(1) [of model svc invocation token ctx]
      undefined_request_announced [of model svc invocation token ctx]
    by (simp add: session_with_request_def session_without_request_def session_missing_def
        trace_mapped_def defined_request_autorun)
next
  case (Saved ctx model later)
  then show ?thesis
    using defined_request_mapped(1) [of model svc invocation token ctx]
      undefined_request_announced [of model svc invocation token ctx]
    by (simp add: session_with_request_def session_without_request_def session_missing_def
        trace_mapped_def defined_request_autorun defined_request_resumed)
qed

text \<open>The three situations, on the sample services and two variants of them.\<close>

theorem C9_unguarded_session_witness:
  "session_with_request demo_services demo_invocation
   \<and> \<not> list_ex undefined_request (fst (invoke demo_services demo_invocation 0))
   \<and> reaches_session_lookup demo_lost_session demo_invocation 0
   \<and> session_missing demo_lost_session demo_invocation
   \<and> snd (invoke demo_lost_session demo_invocation 0) = Threw TypeError
   \<and> reaches_session_lookup demo_no_requests demo_invocation 0
   \<and> session_without_request demo_no_requests demo_invocation
   \<and> list_ex undefined_request (fst (invoke demo_no_requests demo_invocation 0))"
  using C9_unguarded_session [of demo_services demo_invocation 0]
    C9_unguarded_session [of demo_lost_session demo_invocation 0]
    C9_unguarded_session [of demo_no_requests demo_invocation 0]
  by (simp add: demo_defs eval_defs case_defs session_with_request_def
      session_without_request_def reaches_session_lookup_def)

section \<open>The mapper's error\<close>

text \<open>
  C10: when the mapper is called and its result carries a non-empty error message, the
  invocation throws an error with that message; by then the transcript has received the
  closing text edit (no edits, \<^verbatim>\<open>done: true\<close>), which is the last call made, and no save is
  made.
\<close>

theorem C10_mapper_error:
  "list_ex is_mapper (fst (invoke svc invocation token))
   \<and> snd (mapCode svc (mapperRequest svc invocation) token) = Some result
   \<and> errorMessage result = Some msg \<and> msg \<noteq> [] \<longrightarrow>
     snd (invoke svc invocation token) = Threw (Error msg)
     \<and> transcript (fst (invoke svc invocation token)) \<noteq> []
     \<and> last (transcript (fst (invoke svc invocation token)))
         = textEdit (target svc invocation) [] (Some True)
     \<and> is_progress (last (fst (invoke svc invocation token)))
     \<and> \<not> list_ex is_save (fst (invoke svc invocation token))"
proof (cases rule: invoke_cases [of invocation svc token])
  case NoContext
  then show ?thesis by simp
next
  case (Outside ctx)
  then show ?thesis by simp
next
  case (Ignored ctx)
  then show ?thesis by simp
next
  case (NoSession ctx)
  then show ?thesis using kinds_validated [of svc invocation token ctx] by simp
next
  case (NoEditingSession ctx model)
  then show ?thesis using kinds_announced [of svc invocation token ctx model] by simp
next
  case (MapperError ctx model msg')
  then show ?thesis
    using kinds_mapped [of svc invocation token ctx model]
    by (auto simp add: transcript_mapped last_trace_mapped closing_event_def
        truthy_errorMessage_def split: if_splits)
next
  case (NeverResolved ctx model)
  then show ?thesis by (auto simp add: truthy_errorMessage_def)
next
  case (Saved ctx model later)
  then show ?thesis by (auto simp add: truthy_errorMessage_def)
qed

text \<open>The sample invocation with a failing mapper.\<close>

theorem C10_mapper_error_witness:
  "list_ex is_mapper (fst (invoke demo_mapper_fails demo_invocation 0))
   \<and> snd (mapCode demo_mapper_fails (mapperRequest demo_mapper_fails demo_invocation) 0)
       = Some \<lparr>errorMessage = Some ''no model''\<rparr>
   \<and> snd (invoke demo_mapper_fails demo_invocation 0) = Threw (Error ''no model'')
   \<and> last (transcript (fst (invoke demo_mapper_fails demo_invocation 0)))
       = textEdit demo_uri [] (Some True)
   \<and> \<not> list_ex is_save (fst (invoke demo_mapper_fails demo_invocation 0))"
  using C10_mapper_error [of demo_mapper_fails demo_invocation 0
      "\<lparr>errorMessage = Some ''no model''\<rparr>" "''no model''"]
  by (simp add: demo_defs eval_defs)

end
